theory Spec2Isabelle
  imports Main "HOL-Library.Word" "HOL-Library.Multiset" "HOL-Library.AList"
begin

section \<open>The virtual serial network: worker and controller\<close>

text \<open>
  The development embeds \<^verbatim>\<open>virtual/worker.py\<close>, \<^verbatim>\<open>virtual/virtual_serial_network.py\<close>
  and \<^verbatim>\<open>virtual/virtual_serial_pair.py\<close>. Python dictionaries are association lists
  in insertion order (\<open>AList.update\<close> replaces in place or appends, as \<open>d[k] = v\<close> does),
  exceptions are values of \<open>exn + 'a\<close> or \<open>exn option\<close>, a \<open>recv()\<close> on an empty
  pipe never returns and is the value \<open>None\<close>.
\<close>

subsection \<open>Messages\<close>

type_synonym fd = int
type_synonym bytes = "8 word list"

datatype exn = OSError string | KeyError | ValueError

text \<open>The dictionary produced by \<^verbatim>\<open>SerialConnectionMinimalConfig.to_dict\<close>.\<close>

record con_params =
  cp_port :: string
  cp_baudrate :: int
  cp_bytesize :: int
  cp_parity :: string
  cp_stopbits :: int

text \<open>
  Worker responses \<^verbatim>\<open>{"status": ..., "data": ...}\<close> with the four statuses the worker
  sends: \<^verbatim>\<open>"OK"\<close>, \<^verbatim>\<open>"ERROR"\<close>, \<^verbatim>\<open>"EXIST"\<close>, \<^verbatim>\<open>"NOT_EXIST"\<close>.
\<close>

datatype response = OK string | ERROR exn | EXIST string | NOT_EXIST string

text \<open>
  Controller messages \<^verbatim>\<open>{"cmd": ..., "data": ...}\<close>. \<open>Cmd_other\<close> is a command word
  that \<^verbatim>\<open>process_cmd\<close> does not know, \<open>Cmd_malformed\<close> a message whose \<^verbatim>\<open>"cmd"\<close>
  entry cannot be read.
\<close>

datatype command =
    Cmd_stop
  | Cmd_remove "string list"
  | Cmd_add "con_params list"
  | Cmd_create int
  | Cmd_other
  | Cmd_malformed

subsection \<open>The operating system as seen by the worker\<close>

text \<open>
  Every call that the worker wraps in \<^verbatim>\<open>try\<close> may raise. The environment says, for
  each descriptor, what the call does: \<open>Some e\<close> or \<open>Inl e\<close> is the exception raised.
\<close>

record os_env =
  setraw :: "fd \<Rightarrow> exn option"
  set_blocking :: "fd \<Rightarrow> exn option"
  ttyname :: "fd \<Rightarrow> exn + string"
  open_fd :: "fd \<Rightarrow> exn option"
  serial_open :: "con_params \<Rightarrow> exn + fd"
  close_file :: "fd \<Rightarrow> exn option"
  read_file :: "fd \<Rightarrow> exn + bytes"
  write_fails :: "fd \<Rightarrow> bool"

datatype handle = Pty_file fd | Serial_port con_params

text \<open>
  The worker's state: the two dictionaries of \<^verbatim>\<open>create_serial_network\<close>, the
  descriptors registered with the selector, the exit stack, the responses sent on
  \<^verbatim>\<open>worker_io\<close> and not yet received, the results that the successive calls of
  \<^verbatim>\<open>openpty_func\<close> will give (an exhausted supply raises), and the trace of the
  completed \<^verbatim>\<open>f.write(data)\<close> calls.
\<close>

record worker =
  master_files :: "(fd \<times> handle) list"
  slave_names :: "(string \<times> fd) list"
  selector :: "fd list"
  stack :: "handle list"
  outbox :: "response list"
  openpty_func :: "(exn + fd \<times> fd) list"
  written :: "(fd \<times> bytes) list"

definition send :: "response \<Rightarrow> worker \<Rightarrow> worker" where
  "send r w = w\<lparr>outbox := outbox w @ [r]\<rparr>"

text \<open>
  \<^verbatim>\<open>selector.register(fd, EVENT_READ)\<close> raises \<^verbatim>\<open>ValueError\<close> on an invalid descriptor
  and \<^verbatim>\<open>KeyError\<close> on one that is registered already;
  \<^verbatim>\<open>selector.unregister(fd)\<close> raises \<^verbatim>\<open>KeyError\<close> on one that is not registered.
\<close>

definition register :: "fd \<Rightarrow> worker \<Rightarrow> exn + worker" where
  "register k w =
     (if k < 0 then Inl ValueError
      else if k \<in> set (selector w) then Inl KeyError
      else Inr (w\<lparr>selector := selector w @ [k]\<rparr>))"

definition unregister :: "fd \<Rightarrow> worker \<Rightarrow> exn + worker" where
  "unregister k w =
     (if k \<in> set (selector w) then Inr (w\<lparr>selector := removeAll k (selector w)\<rparr>)
      else Inl KeyError)"

subsection \<open>\<^verbatim>\<open>generate_virtual_ports\<close>\<close>

text \<open>The body of the \<^verbatim>\<open>try\<close> of one iteration; \<open>Inl (e, w)\<close> is the exception with the
  state the body had reached.\<close>

definition try_generate :: "os_env \<Rightarrow> worker \<Rightarrow> exn \<times> worker + worker" where
  "try_generate E w =
     (case openpty_func w of
        [] \<Rightarrow> Inl (OSError ''out of pty devices'', w)
      | r # rest \<Rightarrow>
          let w1 = w\<lparr>openpty_func := rest\<rparr> in
          (case r of
             Inl e \<Rightarrow> Inl (e, w1)
           | Inr (master_fd, slave_fd) \<Rightarrow>
               (case setraw E master_fd of
                  Some e \<Rightarrow> Inl (e, w1)
                | None \<Rightarrow>
               (case set_blocking E master_fd of
                  Some e \<Rightarrow> Inl (e, w1)
                | None \<Rightarrow>
               (case ttyname E slave_fd of
                  Inl e \<Rightarrow> Inl (e, w1)
                | Inr slave_name \<Rightarrow>
               (case open_fd E master_fd of
                  Some e \<Rightarrow> Inl (e, w1)
                | None \<Rightarrow>
                  let w2 = w1\<lparr>master_files :=
                                 AList.update master_fd (Pty_file master_fd) (master_files w1)\<rparr>;
                      w3 = w2\<lparr>slave_names := AList.update slave_name master_fd (slave_names w2)\<rparr>;
                      w4 = w3\<lparr>stack := stack w3 @ [Pty_file master_fd]\<rparr>
                  in (case register master_fd w4 of
                        Inl e \<Rightarrow> Inl (e, w4)
                      | Inr w5 \<Rightarrow> Inr (send (OK slave_name) w5))))))))"

definition generate_one :: "os_env \<Rightarrow> worker \<Rightarrow> worker" where
  "generate_one E w =
     (case try_generate E w of
        Inr w' \<Rightarrow> w'
      | Inl (e, w') \<Rightarrow> send (ERROR e) w')"

text \<open>\<^verbatim>\<open>for _ in range(ports_number)\<close>: \<open>nat ports_number\<close> iterations, none for a
  negative number.\<close>

fun generate_loop :: "os_env \<Rightarrow> nat \<Rightarrow> worker \<Rightarrow> worker" where
  "generate_loop E 0 w = w"
| "generate_loop E (Suc k) w = generate_loop E k (generate_one E w)"

definition generate_virtual_ports :: "os_env \<Rightarrow> int \<Rightarrow> worker \<Rightarrow> worker" where
  "generate_virtual_ports E ports_number w = generate_loop E (nat ports_number) w"

subsection \<open>\<^verbatim>\<open>add_external_ports\<close>\<close>

definition try_add :: "os_env \<Rightarrow> con_params \<Rightarrow> worker \<Rightarrow> exn \<times> worker + worker" where
  "try_add E cp w =
     (case serial_open E cp of
        Inl e \<Rightarrow> Inl (e, w)
      | Inr port_fd \<Rightarrow>
          (case set_blocking E port_fd of
             Some e \<Rightarrow> Inl (e, w)
           | None \<Rightarrow>
               let w1 = w\<lparr>master_files :=
                             AList.update port_fd (Serial_port cp) (master_files w)\<rparr>;
                   w2 = w1\<lparr>slave_names := AList.update (cp_port cp) port_fd (slave_names w1)\<rparr>;
                   w3 = w2\<lparr>stack := stack w2 @ [Serial_port cp]\<rparr>
               in (case register port_fd w3 of
                     Inl e \<Rightarrow> Inl (e, w3)
                   | Inr w4 \<Rightarrow> Inr (send (OK (cp_port cp)) w4))))"

definition add_one :: "os_env \<Rightarrow> con_params \<Rightarrow> worker \<Rightarrow> worker" where
  "add_one E cp w =
     (if cp_port cp \<in> fst ` set (slave_names w) then send (EXIST (cp_port cp)) w
      else (case try_add E cp w of
              Inr w' \<Rightarrow> w'
            | Inl (e, w') \<Rightarrow> send (ERROR e) w'))"

fun add_external_ports :: "os_env \<Rightarrow> con_params list \<Rightarrow> worker \<Rightarrow> worker" where
  "add_external_ports E [] w = w"
| "add_external_ports E (cp # external_ports) w =
     add_external_ports E external_ports (add_one E cp w)"

subsection \<open>\<^verbatim>\<open>remove_ports\<close>\<close>

definition try_remove :: "os_env \<Rightarrow> string \<Rightarrow> fd \<Rightarrow> worker \<Rightarrow> exn \<times> worker + worker" where
  "try_remove E slave_name master_fd w =
     (case unregister master_fd w of
        Inl e \<Rightarrow> Inl (e, w)
      | Inr w1 \<Rightarrow>
          (case map_of (master_files w1) master_fd of
             None \<Rightarrow> Inl (KeyError, w1)
           | Some f \<Rightarrow>
               (case close_file E master_fd of
                  Some e \<Rightarrow> Inl (e, w1)
                | None \<Rightarrow>
                    let w2 = w1\<lparr>master_files := AList.delete master_fd (master_files w1)\<rparr>;
                        w3 = w2\<lparr>slave_names := AList.delete slave_name (slave_names w2)\<rparr>
                    in Inr (send (OK slave_name) w3))))"

definition remove_one :: "os_env \<Rightarrow> string \<Rightarrow> worker \<Rightarrow> worker" where
  "remove_one E slave_name w =
     (case map_of (slave_names w) slave_name of
        Some master_fd \<Rightarrow>
          (case try_remove E slave_name master_fd w of
             Inr w' \<Rightarrow> w'
           | Inl (e, w') \<Rightarrow> send (ERROR e) w')
      | None \<Rightarrow> send (NOT_EXIST slave_name) w)"

fun remove_ports :: "os_env \<Rightarrow> string list \<Rightarrow> worker \<Rightarrow> worker" where
  "remove_ports E [] w = w"
| "remove_ports E (slave_name # remove_list) w =
     remove_ports E remove_list (remove_one E slave_name w)"

subsection \<open>\<^verbatim>\<open>forward_data\<close>\<close>

definition EVENT_READ :: nat where
  "EVENT_READ = 1"

text \<open>
  The inner loop \<^verbatim>\<open>for fd, f in master_files.items()\<close> over the remaining items.
  A write that raises leaves the loop: the \<^verbatim>\<open>try\<close> encloses the whole loop, so the
  items after it are not visited.
\<close>

fun write_items ::
  "os_env \<Rightarrow> bool \<Rightarrow> fd \<Rightarrow> bytes \<Rightarrow> (fd \<times> handle) list \<Rightarrow> worker \<Rightarrow> worker" where
  "write_items E lb key_fd data [] w = w"
| "write_items E lb key_fd data ((k, f) # items) w =
     (if lb \<or> k \<noteq> key_fd then
        (if write_fails E k then w
         else write_items E lb key_fd data items (w\<lparr>written := written w @ [(k, data)]\<rparr>))
      else write_items E lb key_fd data items w)"

text \<open>One \<^verbatim>\<open>(key, events)\<close> pair of \<^verbatim>\<open>selector.select\<close>; the registered file objects
  are integers, so \<^verbatim>\<open>isinstance(key_fd, int)\<close> holds.\<close>

definition forward_event :: "os_env \<Rightarrow> bool \<Rightarrow> fd \<times> nat \<Rightarrow> worker \<Rightarrow> worker" where
  "forward_event E lb ev w =
     (let key_fd = fst ev; events = snd ev in
      if and events EVENT_READ \<noteq> 0 then
        (case map_of (master_files w) key_fd of
           None \<Rightarrow> w
         | Some f \<Rightarrow>
             (case read_file E key_fd of
                Inl e \<Rightarrow> w
              | Inr data \<Rightarrow> write_items E lb key_fd data (master_files w) w))
      else w)"

fun forward_data :: "os_env \<Rightarrow> bool \<Rightarrow> (fd \<times> nat) list \<Rightarrow> worker \<Rightarrow> worker" where
  "forward_data E lb [] w = w"
| "forward_data E lb (ev # ready) w = forward_data E lb ready (forward_event E lb ev w)"

subsection \<open>\<^verbatim>\<open>process_cmd\<close> and the start of \<^verbatim>\<open>create_serial_network\<close>\<close>

text \<open>\<open>None\<close> is an empty pipe (\<^verbatim>\<open>worker_io.poll()\<close> false). The result pairs
  \<^verbatim>\<open>keep_running\<close> with the new state.\<close>

definition process_cmd :: "os_env \<Rightarrow> command option \<Rightarrow> worker \<Rightarrow> bool \<times> worker" where
  "process_cmd E message w =
     (case message of
        None \<Rightarrow> (True, w)
      | Some Cmd_malformed \<Rightarrow> (True, send (ERROR KeyError) w)
      | Some Cmd_stop \<Rightarrow> (False, w)
      | Some (Cmd_remove remove_list) \<Rightarrow> (True, remove_ports E remove_list w)
      | Some (Cmd_add external_ports) \<Rightarrow> (True, add_external_ports E external_ports w)
      | Some (Cmd_create ports_number) \<Rightarrow> (True, generate_virtual_ports E ports_number w)
      | Some Cmd_other \<Rightarrow> (True, w))"

definition new_worker :: "(exn + fd \<times> fd) list \<Rightarrow> worker" where
  "new_worker pty = \<lparr>master_files = [], slave_names = [], selector = [], stack = [],
                      outbox = [], openpty_func = pty, written = []\<rparr>"

text \<open>The part of \<^verbatim>\<open>create_serial_network\<close> before its loop.\<close>

definition create_serial_network ::
  "os_env \<Rightarrow> int \<Rightarrow> con_params list option \<Rightarrow> (exn + fd \<times> fd) list \<Rightarrow> worker" where
  "create_serial_network E ports_number external_ports pty =
     add_external_ports E (case external_ports of None \<Rightarrow> [] | Some l \<Rightarrow> l)
       (generate_virtual_ports E ports_number (new_worker pty))"

subsection \<open>The controller: \<^verbatim>\<open>VirtualSerialNetwork\<close>\<close>

text \<open>
  An external port descriptor, \<^verbatim>\<open>SerialConnectionMinimalConfig\<close>. The class defines
  neither \<^verbatim>\<open>__eq__\<close> nor \<^verbatim>\<open>__hash__\<close>, so Python compares and hashes its objects by
  identity: \<open>obj_id\<close> is that identity, and two records are the same object exactly when
  they are equal.
\<close>

record descriptor =
  obj_id :: nat
  port :: string
  baudrate :: int
  bytesize :: int
  parity :: string
  stopbits :: int

definition to_dict :: "descriptor \<Rightarrow> con_params" where
  "to_dict d = \<lparr>cp_port = port d, cp_baudrate = baudrate d, cp_bytesize = bytesize d,
                 cp_parity = parity d, cp_stopbits = stopbits d\<rparr>"

text \<open>
  \<^verbatim>\<open>list(set(xs))\<close> keeps one occurrence of each element, in an order that Python
  leaves open: the order is a parameter, a function that permutes its argument.
\<close>

record set_order =
  names_order :: "string list \<Rightarrow> string list"
  descs_order :: "descriptor list \<Rightarrow> descriptor list"

definition permutes_lists :: "set_order \<Rightarrow> bool" where
  "permutes_lists S \<longleftrightarrow>
     (\<forall>xs. mset (names_order S xs) = mset xs) \<and> (\<forall>ds. mset (descs_order S ds) = mset ds)"

definition list_set_names :: "set_order \<Rightarrow> string list \<Rightarrow> string list" where
  "list_set_names S xs = names_order S (remdups xs)"

definition list_set_descs :: "set_order \<Rightarrow> descriptor list \<Rightarrow> descriptor list" where
  "list_set_descs S ds = descs_order S (remdups ds)"

datatype log_entry = Debug string | Info string | Error string | Warning string

text \<open>
  The controller's attributes: \<open>proc\<close>, \<open>master_io\<close> and \<open>worker_io\<close> say whether
  \<^verbatim>\<open>__p\<close>, \<^verbatim>\<open>__master_io\<close> and \<^verbatim>\<open>__worker_io\<close> are not \<^verbatim>\<open>None\<close>. \<open>sent\<close> is the trace of
  the messages sent on \<^verbatim>\<open>__master_io\<close> and \<open>logged\<close> the trace of the logger calls.
\<close>

record controller =
  proc :: bool
  master_io :: bool
  worker_io :: bool
  loopback :: bool
  external_ports :: "descriptor list"
  virtual_ports_num :: int
  serial_ports :: "string list"
  sent :: "command list"
  logged :: "log_entry list"

definition logger :: "log_entry \<Rightarrow> controller \<Rightarrow> controller" where
  "logger l c = c\<lparr>logged := logged c @ [l]\<rparr>"

text \<open>\<^verbatim>\<open>_ext_ports_remove_duplicates\<close>: the first descriptor of each port name stays.\<close>

fun remove_duplicates_loop :: "descriptor list \<Rightarrow> descriptor list \<Rightarrow> descriptor list" where
  "remove_duplicates_loop new_external_ports_list [] = new_external_ports_list"
| "remove_duplicates_loop new_external_ports_list (port_params # rest) =
     remove_duplicates_loop
       (if port port_params \<in> set (map port new_external_ports_list)
        then new_external_ports_list
        else new_external_ports_list @ [port_params]) rest"

definition ext_ports_remove_duplicates :: "controller \<Rightarrow> controller" where
  "ext_ports_remove_duplicates c =
     c\<lparr>external_ports := remove_duplicates_loop [] (external_ports c)\<rparr>"

text \<open>\<^verbatim>\<open>_update_ext_ports\<close>: the descriptors whose name is in \<open>ports_connected\<close> stay.\<close>

definition update_ext_ports :: "string list \<Rightarrow> controller \<Rightarrow> controller" where
  "update_ext_ports ports_connected c =
     c\<lparr>external_ports := filter (\<lambda>d. port d \<in> set ports_connected) (external_ports c)\<rparr>"

text \<open>\<^verbatim>\<open>__init__\<close>.\<close>

definition vsn_init :: "int \<Rightarrow> descriptor list option \<Rightarrow> bool \<Rightarrow> controller" where
  "vsn_init virtual_ports_num0 external_ports0 loopback0 =
     \<lparr>proc = False, master_io = False, worker_io = False, loopback = loopback0,
      external_ports =
        remove_duplicates_loop [] (case external_ports0 of None \<Rightarrow> [] | Some l \<Rightarrow> l),
      virtual_ports_num = virtual_ports_num0, serial_ports = [], sent = [], logged = []\<rparr>"

text \<open>
  The loop of \<^verbatim>\<open>create\<close> and the first loop of \<^verbatim>\<open>start\<close>: one \<^verbatim>\<open>recv()\<close> per
  iteration. The inbox holds the responses the worker has sent and will send; on an
  empty inbox \<^verbatim>\<open>recv()\<close> blocks for ever.
\<close>

definition on_created :: "response \<Rightarrow> controller \<Rightarrow> controller" where
  "on_created r c =
     (case r of
        ERROR e \<Rightarrow> logger (Error ''VSN: ERROR (%s)'') c
      | OK name \<Rightarrow> c\<lparr>serial_ports := serial_ports c @ [name],
                      virtual_ports_num := virtual_ports_num c + 1\<rparr>
      | _ \<Rightarrow> c)"

fun recv_created ::
  "nat \<Rightarrow> controller \<Rightarrow> response list \<Rightarrow> (controller \<times> response list) option" where
  "recv_created 0 c inbox = Some (c, inbox)"
| "recv_created (Suc k) c [] = None"
| "recv_created (Suc k) c (r # inbox) = recv_created k (on_created r c) inbox"

text \<open>The second loop of \<^verbatim>\<open>start\<close>.\<close>

fun recv_connected ::
  "nat \<Rightarrow> string list \<Rightarrow> controller \<Rightarrow> response list \<Rightarrow>
   (string list \<times> controller \<times> response list) option" where
  "recv_connected 0 ports_connected c inbox = Some (ports_connected, c, inbox)"
| "recv_connected (Suc k) ports_connected c [] = None"
| "recv_connected (Suc k) ports_connected c (r # inbox) =
     (case r of
        ERROR e \<Rightarrow>
          recv_connected k ports_connected (logger (Error ''VSN: ERROR (%s)'') c) inbox
      | OK name \<Rightarrow> recv_connected k (ports_connected @ [name]) c inbox
      | _ \<Rightarrow> recv_connected k ports_connected c inbox)"

text \<open>\<^verbatim>\<open>start\<close>, from the first \<^verbatim>\<open>recv()\<close> on; the worker is spawned by \<open>net_start\<close> below.\<close>

definition start ::
  "set_order \<Rightarrow> controller \<Rightarrow> response list \<Rightarrow> (controller \<times> response list) option" where
  "start S c inbox =
     (let c0 = logger (Debug ''VSN: STARTING'') c;
          virtual_ports_num0 = virtual_ports_num c0;
          c1 = c0\<lparr>proc := True, master_io := True, worker_io := True,
                  virtual_ports_num := 0\<rparr>
      in case recv_created (nat virtual_ports_num0) c1 inbox of
           None \<Rightarrow> None
         | Some (c2, inbox2) \<Rightarrow>
             (case recv_connected (length (external_ports c2)) [] c2 inbox2 of
                None \<Rightarrow> None
              | Some (ports_connected, c3, inbox3) \<Rightarrow>
                  let c4 = ext_ports_remove_duplicates (update_ext_ports ports_connected c3);
                      c5 = c4\<lparr>serial_ports := serial_ports c4 @ ports_connected\<rparr>;
                      c6 = c5\<lparr>serial_ports := list_set_names S (serial_ports c5)\<rparr>
                  in Some (logger (Info ''VSN: %s'') (logger (Info ''VSN: STARTED'') c6),
                           inbox3)))"

text \<open>\<^verbatim>\<open>stop\<close>; \<^verbatim>\<open>join(timeout=5)\<close> returns whatever the worker does.\<close>

definition stop :: "controller \<Rightarrow> controller" where
  "stop c =
     (if proc c then
        let c1 = logger (Debug ''VSN: STOPPING'') c;
            c2 = c1\<lparr>sent := sent c1 @ [Cmd_stop]\<rparr>;
            c3 = c2\<lparr>proc := False, master_io := False, worker_io := False,
                    serial_ports := []\<rparr>
        in logger (Info ''VSN: STOPPED'') c3
      else c)"

text \<open>\<^verbatim>\<open>add\<close>.\<close>

definition add_message :: "set_order \<Rightarrow> descriptor list \<Rightarrow> con_params list" where
  "add_message S external_ports0 = map to_dict (list_set_descs S external_ports0)"

fun recv_added ::
  "set_order \<Rightarrow> descriptor list \<Rightarrow> nat \<Rightarrow> descriptor list \<Rightarrow> controller \<Rightarrow> response list \<Rightarrow>
   (descriptor list \<times> controller \<times> response list) option" where
  "recv_added S external_ports0 0 ports_connected c inbox = Some (ports_connected, c, inbox)"
| "recv_added S external_ports0 (Suc k) ports_connected c [] = None"
| "recv_added S external_ports0 (Suc k) ports_connected c (r # inbox) =
     (case r of
        ERROR e \<Rightarrow>
          recv_added S external_ports0 k ports_connected
            (logger (Error ''VSN: ERROR (%s)'') c) inbox
      | EXIST name \<Rightarrow>
          recv_added S external_ports0 k ports_connected
            (logger (Error ''VSN: Port (%s) already added.'') c) inbox
      | OK name \<Rightarrow>
          recv_added S external_ports0 k
            (case find (\<lambda>d. port d = name) (list_set_descs S external_ports0) of
               Some d \<Rightarrow> ports_connected @ [d]
             | None \<Rightarrow> ports_connected) c inbox
      | NOT_EXIST name \<Rightarrow> recv_added S external_ports0 k ports_connected c inbox)"

definition add ::
  "set_order \<Rightarrow> descriptor list \<Rightarrow> controller \<Rightarrow> response list \<Rightarrow>
   (controller \<times> response list) option" where
  "add S external_ports0 c inbox =
     (if master_io c then
        let ext_ports = add_message S external_ports0;
            c1 = c\<lparr>sent := sent c @ [Cmd_add ext_ports]\<rparr>
        in case recv_added S external_ports0 (length ext_ports) [] c1 inbox of
             None \<Rightarrow> None
           | Some (ports_connected, c2, inbox2) \<Rightarrow>
               let c3 = c2\<lparr>external_ports := external_ports c2 @ ports_connected\<rparr>;
                   c4 = ext_ports_remove_duplicates c3;
                   c5 = c4\<lparr>serial_ports := serial_ports c4 @ map port ports_connected\<rparr>
               in Some (c5\<lparr>serial_ports := list_set_names S (serial_ports c5)\<rparr>, inbox2)
      else Some (c, inbox))"

text \<open>\<^verbatim>\<open>create\<close>.\<close>

definition create ::
  "int \<Rightarrow> controller \<Rightarrow> response list \<Rightarrow> (controller \<times> response list) option" where
  "create ports_num c inbox =
     (if master_io c then
        recv_created (nat ports_num) (c\<lparr>sent := sent c @ [Cmd_create ports_num]\<rparr>) inbox
      else Some (c, inbox))"

text \<open>\<^verbatim>\<open>remove\<close>.\<close>

fun recv_removed ::
  "nat \<Rightarrow> string list \<Rightarrow> controller \<Rightarrow> response list \<Rightarrow>
   (string list \<times> controller \<times> response list) option" where
  "recv_removed 0 removed_ports c inbox = Some (removed_ports, c, inbox)"
| "recv_removed (Suc k) removed_ports c [] = None"
| "recv_removed (Suc k) removed_ports c (r # inbox) =
     (case r of
        ERROR e \<Rightarrow>
          recv_removed k removed_ports (logger (Error ''VSN: ERROR (%s)'') c) inbox
      | NOT_EXIST name \<Rightarrow>
          recv_removed k removed_ports (logger (Warning ''VSN: Port %s not found'') c) inbox
      | OK name \<Rightarrow> recv_removed k (removed_ports @ [name]) c inbox
      | EXIST name \<Rightarrow> recv_removed k removed_ports c inbox)"

text \<open>The inner loop over \<^verbatim>\<open>enumerate(self.external_ports)\<close>: the first descriptor of
  that name is deleted; \<open>None\<close> when there is none (\<^verbatim>\<open>found\<close> stays false).\<close>

fun delete_first :: "string \<Rightarrow> descriptor list \<Rightarrow> descriptor list option" where
  "delete_first p [] = None"
| "delete_first p (ext_port # rest) =
     (if port ext_port = p then Some rest
      else map_option ((#) ext_port) (delete_first p rest))"

definition forget_port :: "string \<Rightarrow> controller \<Rightarrow> controller" where
  "forget_port p c =
     (case delete_first p (external_ports c) of
        Some l \<Rightarrow> c\<lparr>external_ports := l\<rparr>
      | None \<Rightarrow> c\<lparr>virtual_ports_num := virtual_ports_num c - 1\<rparr>)"

fun forget_ports :: "string list \<Rightarrow> controller \<Rightarrow> controller" where
  "forget_ports [] c = c"
| "forget_ports (p # removed_ports) c = forget_ports removed_ports (forget_port p c)"

definition remove ::
  "set_order \<Rightarrow> string list \<Rightarrow> controller \<Rightarrow> response list \<Rightarrow>
   (controller \<times> response list) option" where
  "remove S remove_list c inbox =
     (if master_io c then
        let c1 = c\<lparr>sent := sent c @ [Cmd_remove remove_list]\<rparr>
        in case recv_removed (length remove_list) [] c1 inbox of
             None \<Rightarrow> None
           | Some (removed_ports, c2, inbox2) \<Rightarrow>
               let c3 = forget_ports removed_ports c2
               in Some (c3\<lparr>serial_ports :=
                             list_set_names S
                               (filter (\<lambda>n. n \<notin> set removed_ports) (serial_ports c3))\<rparr>,
                        inbox2)
      else Some (c, inbox))"

subsection \<open>The pair: \<^verbatim>\<open>VirtualSerialPair\<close>\<close>






subsection \<open>Controller and worker together\<close>

text \<open>
  The pipe is reliable and ordered, and the worker answers a command before the
  controller's \<^verbatim>\<open>recv()\<close> returns: an operation of the network runs the worker on the
  message and hands its outbox to the controller, which leaves what it did not receive.
\<close>

definition hand_over ::
  "worker \<Rightarrow> (controller \<times> response list) option \<Rightarrow> (controller \<times> worker) option" where
  "hand_over w res = map_option (\<lambda>(c, rest). (c, w\<lparr>outbox := rest\<rparr>)) res"

text \<open>\<^verbatim>\<open>start\<close> spawns \<^verbatim>\<open>create_serial_network\<close> with the port count, the descriptors'
  dictionaries (\<^verbatim>\<open>None\<close> for an empty list) and \<^verbatim>\<open>openpty_func\<close>.\<close>

definition net_start ::
  "os_env \<Rightarrow> set_order \<Rightarrow> (exn + fd \<times> fd) list \<Rightarrow> controller \<Rightarrow> (controller \<times> worker) option" where
  "net_start E S pty c =
     (let external_ports0 =
            (if external_ports c = [] then None else Some (map to_dict (external_ports c)));
          w = create_serial_network E (virtual_ports_num c) external_ports0 pty
      in hand_over w (start S c (outbox w)))"

definition net_add ::
  "os_env \<Rightarrow> set_order \<Rightarrow> descriptor list \<Rightarrow> controller \<times> worker \<Rightarrow>
   (controller \<times> worker) option" where
  "net_add E S external_ports0 n =
     (let c = fst n;
          w = (if master_io c
               then snd (process_cmd E (Some (Cmd_add (add_message S external_ports0))) (snd n))
               else snd n)
      in hand_over w (add S external_ports0 c (outbox w)))"

definition net_create ::
  "os_env \<Rightarrow> int \<Rightarrow> controller \<times> worker \<Rightarrow> (controller \<times> worker) option" where
  "net_create E ports_num n =
     (let c = fst n;
          w = (if master_io c
               then snd (process_cmd E (Some (Cmd_create ports_num)) (snd n))
               else snd n)
      in hand_over w (create ports_num c (outbox w)))"

definition net_remove ::
  "os_env \<Rightarrow> set_order \<Rightarrow> string list \<Rightarrow> controller \<times> worker \<Rightarrow>
   (controller \<times> worker) option" where
  "net_remove E S remove_list n =
     (let c = fst n;
          w = (if master_io c
               then snd (process_cmd E (Some (Cmd_remove remove_list)) (snd n))
               else snd n)
      in hand_over w (remove S remove_list c (outbox w)))"


subsection \<open>Concrete environments and states\<close>

definition ping :: bytes where
  "ping = [0x50, 0x49, 0x4E, 0x47]"

text \<open>An environment in which descriptors 11 and 13 are pty slaves, the device
  \<^verbatim>\<open>/dev/ttyS0\<close> opens on descriptor 20, and nothing else fails.\<close>

definition demo_env :: os_env where
  "demo_env =
     \<lparr>setraw = (\<lambda>k. None), set_blocking = (\<lambda>k. None),
      ttyname = (\<lambda>k. if k = 11 then Inr ''/dev/pts/1''
                      else if k = 13 then Inr ''/dev/pts/2''
                      else Inl (OSError ''Inappropriate ioctl for device'')),
      open_fd = (\<lambda>k. None),
      serial_open = (\<lambda>cp. if cp_port cp = ''/dev/ttyS0'' then Inr 20
                           else Inl (OSError ''could not open port'')),
      close_file = (\<lambda>k. None), read_file = (\<lambda>k. Inr ping), write_fails = (\<lambda>k. False)\<rparr>"

text \<open>The same environment with a peer on descriptor 4 whose writes raise.\<close>

definition broken_peer_env :: os_env where
  "broken_peer_env = demo_env\<lparr>write_fails := (\<lambda>k. k = 4)\<rparr>"

definition three_ports :: worker where
  "three_ports =
     \<lparr>master_files = [(3, Pty_file 3), (4, Pty_file 4), (5, Pty_file 5)],
      slave_names = [(''/dev/pts/0'', 3), (''/dev/pts/1'', 4), (''/dev/pts/2'', 5)],
      selector = [3, 4, 5], stack = [Pty_file 3, Pty_file 4, Pty_file 5],
      outbox = [], openpty_func = [], written = []\<rparr>"

subsection \<open>Notions used in the statements\<close>

text \<open>The names of the \<open>OK\<close> responses of a list, in order.\<close>

fun ok_names :: "response list \<Rightarrow> string list" where
  "ok_names [] = []"
| "ok_names (OK name # rs) = name # ok_names rs"
| "ok_names (r # rs) = ok_names rs"

text \<open>
  Every pty creation attempt over the pairs \<open>ps\<close> completes: terminal setup, opening
  and naming raise nothing, the slave names are \<open>names\<close>, and the master descriptors
  are valid and pairwise distinct, so that the selector accepts each of them.
\<close>

definition attempts_succeed :: "os_env \<Rightarrow> (fd \<times> fd) list \<Rightarrow> string list \<Rightarrow> bool" where
  "attempts_succeed E ps names \<longleftrightarrow>
     list_all (\<lambda>p. setraw E (fst p) = None \<and> set_blocking E (fst p) = None \<and>
                   open_fd E (fst p) = None \<and> 0 \<le> fst p) ps \<and>
     map (\<lambda>p. ttyname E (snd p)) ps = map Inr names \<and> distinct (map fst ps)"

text \<open>Two orders for \<^verbatim>\<open>list(set(...))\<close>.\<close>

definition insertion_order :: set_order where
  "insertion_order = \<lparr>names_order = (\<lambda>xs. xs), descs_order = (\<lambda>ds. ds)\<rparr>"

definition reversed_order :: set_order where
  "reversed_order = \<lparr>names_order = rev, descs_order = rev\<rparr>"

text \<open>The controller's name list after an operation of the network; \<open>None\<close> when
  the operation never returns.\<close>

definition port_names :: "(controller \<times> worker) option \<Rightarrow> string list option" where
  "port_names res = map_option (\<lambda>n. serial_ports (fst n)) res"

text \<open>A descriptor and a running controller that knows one pty and the device.\<close>

definition ttyS0 :: descriptor where
  "ttyS0 = \<lparr>obj_id = 1, port = ''/dev/ttyS0'', baudrate = 9600, bytesize = 8,
            parity = ''N'', stopbits = 1\<rparr>"

definition running_ctl :: controller where
  "running_ctl =
     \<lparr>proc = True, master_io = True, worker_io = True, loopback = False,
      external_ports = [ttyS0], virtual_ports_num = 1,
      serial_ports = [''/dev/pts/1'', ''/dev/ttyS0''], sent = [], logged = []\<rparr>"

text \<open>
  The teardown of a registered name raises nothing: its descriptor is registered with
  the selector, has a file in \<^verbatim>\<open>master_files\<close>, and closes.
\<close>

definition closes_cleanly :: "os_env \<Rightarrow> worker \<Rightarrow> string \<Rightarrow> bool" where
  "closes_cleanly E w name =
     (case map_of (slave_names w) name of
        None \<Rightarrow> False
      | Some k \<Rightarrow> k \<in> set (selector w) \<and> map_of (master_files w) k \<noteq> None \<and>
                  close_file E k = None)"

text \<open>A controller for the worker \<open>three_ports\<close>, and an environment in which
  closing a file raises.\<close>

definition three_ports_ctl :: controller where
  "three_ports_ctl =
     \<lparr>proc = True, master_io = True, worker_io = True, loopback = False,
      external_ports = [], virtual_ports_num = 3,
      serial_ports = [''/dev/pts/0'', ''/dev/pts/1'', ''/dev/pts/2''], sent = [], logged = []\<rparr>"

definition stuck_close_env :: os_env where
  "stuck_close_env = demo_env\<lparr>close_file := (\<lambda>k. Some (OSError ''Bad file descriptor''))\<rparr>"

text \<open>
  Every entry of the batch \<open>cps\<close> for the name \<open>p\<close> opens: \<^verbatim>\<open>Serial(**con_params)\<close>
  returns a port, \<^verbatim>\<open>os.set_blocking\<close> raises nothing, the selector accepts the port's
  descriptor, and no entry for another name opens on that descriptor.
\<close>

definition device_opens :: "os_env \<Rightarrow> worker \<Rightarrow> con_params list \<Rightarrow> string \<Rightarrow> bool" where
  "device_opens E w cps p =
     (\<forall>cp\<in>set cps. cp_port cp = p \<longrightarrow>
        (case serial_open E cp of
           Inl e \<Rightarrow> False
         | Inr k \<Rightarrow> set_blocking E k = None \<and> 0 \<le> k \<and> k \<notin> set (selector w) \<and>
                    (\<forall>cp'\<in>set cps. cp_port cp' \<noteq> p \<longrightarrow> serial_open E cp' \<noteq> Inr k)))"

text \<open>A second descriptor object for the same device.\<close>

definition ttyS0_again :: descriptor where
  "ttyS0_again = ttyS0\<lparr>obj_id := 2\<rparr>"

section \<open>Forwarding\<close>

lemma master_files_write_items [simp]:
  "master_files (write_items E lb key d items w) = master_files w"
  by (induction items arbitrary: w) auto





text \<open>
  Claim C2. The \<^verbatim>\<open>try\<close> of \<^verbatim>\<open>forward_data\<close> encloses the whole loop over the
  registry. With three registered descriptors 3, 4, 5, an event on 3 and a peer 4 whose
  write raises, the exception is swallowed but the loop is left: descriptor 5, whose
  write would succeed, receives nothing.
\<close>

theorem forward_data_write_failure_stops_broadcast:
  "\<not> write_fails broken_peer_env 5
   \<and> map_of (master_files three_ports) 5 = Some (Pty_file 5)
   \<and> written (forward_data broken_peer_env False [(3, EVENT_READ)] three_ports) = []"
  by (simp add: forward_event_def broken_peer_env_def demo_env_def three_ports_def EVENT_READ_def)

section \<open>One response per unit of work\<close>

lemma outbox_send [simp]: "outbox (send r w) = outbox w @ [r]"
  by (simp add: send_def)

lemma generate_one_outbox: "\<exists>r. outbox (generate_one E w) = outbox w @ [r]"
  by (auto simp: generate_one_def try_generate_def register_def Let_def
           split: list.splits sum.splits option.splits prod.splits)

lemma generate_loop_outbox:
  "\<exists>rs. outbox (generate_loop E k w) = outbox w @ rs \<and> length rs = k"
proof (induction k arbitrary: w)
  case 0
  show ?case by simp
next
  case (Suc k)
  obtain r where r: "outbox (generate_one E w) = outbox w @ [r]"
    using generate_one_outbox by blast
  obtain rs where "outbox (generate_loop E k (generate_one E w)) = outbox (generate_one E w) @ rs"
      "length rs = k"
    using Suc.IH by blast
  with r show ?case by (intro exI [of _ "r # rs"]) simp
qed

lemma add_one_outbox: "\<exists>r. outbox (add_one E cp w) = outbox w @ [r]"
  by (auto simp: add_one_def try_add_def register_def Let_def
           split: sum.splits option.splits prod.splits)

lemma add_external_ports_outbox:
  "\<exists>rs. outbox (add_external_ports E l w) = outbox w @ rs \<and> length rs = length l"
proof (induction l arbitrary: w)
  case Nil
  show ?case by simp
next
  case (Cons cp l)
  obtain r where r: "outbox (add_one E cp w) = outbox w @ [r]"
    using add_one_outbox by blast
  obtain rs where "outbox (add_external_ports E l (add_one E cp w)) = outbox (add_one E cp w) @ rs"
      "length rs = length l"
    using Cons.IH by blast
  with r show ?case by (intro exI [of _ "r # rs"]) simp
qed

lemma remove_one_outbox: "\<exists>r. outbox (remove_one E n w) = outbox w @ [r]"
  by (auto simp: remove_one_def try_remove_def unregister_def Let_def
           split: sum.splits option.splits prod.splits)

lemma remove_ports_outbox:
  "\<exists>rs. outbox (remove_ports E l w) = outbox w @ rs \<and> length rs = length l"
proof (induction l arbitrary: w)
  case Nil
  show ?case by simp
next
  case (Cons n l)
  obtain r where r: "outbox (remove_one E n w) = outbox w @ [r]"
    using remove_one_outbox by blast
  obtain rs where "outbox (remove_ports E l (remove_one E n w)) = outbox (remove_one E n w) @ rs"
      "length rs = length l"
    using Cons.IH by blast
  with r show ?case by (intro exI [of _ "r # rs"]) simp
qed

text \<open>
  Claim C3. Processing \<open>Create n\<close> appends exactly \<open>n\<close> responses to the pipe (none
  for a negative \<open>n\<close>), \<open>AddExternal l\<close> exactly one per descriptor of \<open>l\<close> and
  \<open>Remove l\<close> exactly one per name of \<open>l\<close>, in every environment and worker state,
  hence whichever units succeed or fail.
\<close>

theorem one_response_per_unit:
  "(\<exists>rs. outbox (snd (process_cmd E (Some (Cmd_create n)) w)) = outbox w @ rs
          \<and> int (length rs) = max 0 n)
   \<and> (\<exists>rs. outbox (snd (process_cmd E (Some (Cmd_add external_ports0)) w)) = outbox w @ rs
          \<and> length rs = length external_ports0)
   \<and> (\<exists>rs. outbox (snd (process_cmd E (Some (Cmd_remove remove_list)) w)) = outbox w @ rs
          \<and> length rs = length remove_list)"
proof (intro conjI)
  obtain rs where "outbox (generate_loop E (nat n) w) = outbox w @ rs" "length rs = nat n"
    using generate_loop_outbox by blast
  then show "\<exists>rs. outbox (snd (process_cmd E (Some (Cmd_create n)) w)) = outbox w @ rs
          \<and> int (length rs) = max 0 n"
    by (intro exI [of _ rs]) (simp add: process_cmd_def generate_virtual_ports_def)
  show "\<exists>rs. outbox (snd (process_cmd E (Some (Cmd_add external_ports0)) w)) = outbox w @ rs
          \<and> length rs = length external_ports0"
    using add_external_ports_outbox [of E external_ports0 w] by (simp add: process_cmd_def)
  show "\<exists>rs. outbox (snd (process_cmd E (Some (Cmd_remove remove_list)) w)) = outbox w @ rs
          \<and> length rs = length remove_list"
    using remove_ports_outbox [of E remove_list w] by (simp add: process_cmd_def)
qed

section \<open>Starting the network\<close>

lemma ok_names_append [simp]: "ok_names (xs @ ys) = ok_names xs @ ok_names ys"
  by (induction xs rule: ok_names.induct) auto

lemma length_ok_names: "length (ok_names rs) \<le> length rs"
  by (induction rs rule: ok_names.induct) auto

lemma ok_names_map_OK [simp]: "ok_names (map OK names) = names"
  by (induction names) auto

lemma recv_created_result:
  "k \<le> length inbox \<Longrightarrow>
   \<exists>lg. recv_created k c inbox =
     Some (c\<lparr>serial_ports := serial_ports c @ ok_names (take k inbox),
             virtual_ports_num := virtual_ports_num c + int (length (ok_names (take k inbox))),
             logged := lg\<rparr>, drop k inbox)"
proof (induction k c inbox rule: recv_created.induct)
  case (1 c inbox)
  show ?case by (intro exI [of _ "logged c"]) simp
next
  case (2 k c)
  then show ?case by simp
next
  case (3 k c r inbox)
  then have "k \<le> length inbox" by simp
  from 3(1) [OF this] obtain lg where
    "recv_created k (on_created r c) inbox =
       Some ((on_created r c)\<lparr>serial_ports := serial_ports (on_created r c) @ ok_names (take k inbox),
             virtual_ports_num := virtual_ports_num (on_created r c) + int (length (ok_names (take k inbox))),
             logged := lg\<rparr>, drop k inbox)" by blast
  then show ?case
    by (cases r) (auto simp: on_created_def logger_def add.assoc)
qed

lemma recv_created_blocks: "length inbox < k \<Longrightarrow> recv_created k c inbox = None"
  by (induction k c inbox rule: recv_created.induct) auto

lemma length_list_set_names:
  "permutes_lists S \<Longrightarrow> length (list_set_names S xs) = length (remdups xs)"
  unfolding permutes_lists_def list_set_names_def
  by (metis size_mset)

lemma mset_list_set_names:
  "permutes_lists S \<Longrightarrow> mset (list_set_names S xs) = mset (remdups xs)"
  unfolding permutes_lists_def list_set_names_def by simp

lemma set_list_set_names [simp]:
  "permutes_lists S \<Longrightarrow> set (list_set_names S xs) = set xs"
  using mset_list_set_names [of S xs] by (metis set_mset_mset set_remdups)

lemma distinct_list_set_names [simp]:
  "permutes_lists S \<Longrightarrow> distinct (list_set_names S xs)"
  using mset_list_set_names [of S xs] by (metis distinct_remdups mset_eq_imp_distinct_iff)

lemma start_no_external:
  assumes "external_ports c = []" and "nat (virtual_ports_num c) \<le> length inbox"
  shows "\<exists>c'. start S c inbox = Some (c', drop (nat (virtual_ports_num c)) inbox)
     \<and> serial_ports c' = list_set_names S
                (serial_ports c @ ok_names (take (nat (virtual_ports_num c)) inbox))
     \<and> virtual_ports_num c' = int (length (ok_names (take (nat (virtual_ports_num c)) inbox)))
     \<and> proc c' \<and> master_io c' \<and> worker_io c' \<and> external_ports c' = []
     \<and> sent c' = sent c \<and> loopback c' = loopback c"
proof -
  let ?c1 = "(logger (Debug ''VSN: STARTING'') c)\<lparr>proc := True, master_io := True, worker_io := True,
                  virtual_ports_num := 0\<rparr>"
  from recv_created_result [OF assms(2), of ?c1] obtain lg where
    lg: "recv_created (nat (virtual_ports_num c)) ?c1 inbox =
     Some (?c1\<lparr>serial_ports := serial_ports ?c1 @ ok_names (take (nat (virtual_ports_num c)) inbox),
             virtual_ports_num := virtual_ports_num ?c1 + int (length (ok_names (take (nat (virtual_ports_num c)) inbox))),
             logged := lg\<rparr>, drop (nat (virtual_ports_num c)) inbox)" by blast
  show ?thesis
    using assms(1) lg
    by (simp add: start_def Let_def logger_def update_ext_ports_def ext_ports_remove_duplicates_def)
qed

lemma generate_one_success:
  assumes "openpty_func w = Inr (m, s) # rest"
    and "setraw E m = None" "set_blocking E m = None" "open_fd E m = None"
    and "ttyname E s = Inr name" and "0 \<le> m" and "m \<notin> set (selector w)"
  shows "outbox (generate_one E w) = outbox w @ [OK name]
       \<and> openpty_func (generate_one E w) = rest
       \<and> selector (generate_one E w) = selector w @ [m]"
  using assms by (simp add: generate_one_def try_generate_def register_def Let_def send_def)

lemma generate_loop_success:
  assumes "openpty_func w = map Inr ps @ rest" and "attempts_succeed E ps names"
    and "set (map fst ps) \<inter> set (selector w) = {}"
  shows "outbox (generate_loop E (length ps) w) = outbox w @ map OK names"
  using assms
proof (induction ps arbitrary: w names)
  case Nil
  then show ?case by (simp add: attempts_succeed_def)
next
  case (Cons p ps)
  obtain m s where p: "p = (m, s)" by (cases p)
  from Cons.prems(2) obtain name names' where names: "names = name # names'"
    and nm: "ttyname E s = Inr name" and rest': "attempts_succeed E ps names'"
    and ok: "setraw E m = None" "set_blocking E m = None" "open_fd E m = None" "0 \<le> m"
    and fresh: "m \<notin> set (map fst ps)"
    by (cases names) (auto simp: attempts_succeed_def p)
  from Cons.prems(1) have sup: "openpty_func w = Inr (m, s) # (map Inr ps @ rest)"
    by (simp add: p)
  from Cons.prems(3) have notin: "m \<notin> set (selector w)" by (auto simp: p)
  note one = generate_one_success [OF sup ok(1-3) nm ok(4) notin]
  have "set (map fst ps) \<inter> set (selector (generate_one E w)) = {}"
    using one Cons.prems(3) fresh by (auto simp: p)
  from Cons.IH [OF _ rest' this] one
  show ?case by (simp add: names)
qed

lemma permutes_insertion_order: "permutes_lists insertion_order"
  by (simp add: permutes_lists_def insertion_order_def)

lemma permutes_reversed_order: "permutes_lists reversed_order"
  by (simp add: permutes_lists_def reversed_order_def)

lemma outbox_new_worker [simp]: "outbox (new_worker pty) = []"
  by (simp add: new_worker_def)

text \<open>
  Claim C4, amended. For every \<open>n \<ge> 0\<close>, constructing a controller for \<open>n\<close> virtual
  ports and no external descriptors and starting it returns, with a name list of at most
  \<open>n\<close> entries; the list has exactly \<open>n\<close> entries (the slave names) whenever each of
  the \<open>n\<close> creation attempts completes and the slave names are pairwise distinct.
\<close>

theorem start_name_list_size:
  assumes S: "permutes_lists S" and n: "0 \<le> n"
  shows "vsn_init n (Some []) lb = vsn_init n None lb
         \<and> (\<exists>c w. net_start E S pty (vsn_init n None lb) = Some (c, w)
           \<and> int (length (serial_ports c)) \<le> n
           \<and> (\<forall>ps names rest.
                 pty = map Inr ps @ rest \<and> int (length ps) = n \<and>
                 attempts_succeed E ps names \<and> distinct names
                 \<longrightarrow> int (length (serial_ports c)) = n \<and> set (serial_ports c) = set names))"
proof -
  define c0 where "c0 = vsn_init n None lb"
  define w where "w = create_serial_network E n None pty"
  have w: "w = generate_loop E (nat n) (new_worker pty)"
    by (simp add: w_def create_serial_network_def generate_virtual_ports_def)
  obtain rs where rs0: "outbox (generate_loop E (nat n) (new_worker pty)) =
      outbox (new_worker pty) @ rs" and len_rs: "length rs = nat n"
    using generate_loop_outbox [of E "nat n" "new_worker pty"] by blast
  have rs: "outbox w = rs" using rs0 w by simp
  have c: "external_ports c0 = []" "virtual_ports_num c0 = n" "serial_ports c0 = []"
    by (simp_all add: c0_def vsn_init_def)
  have "nat (virtual_ports_num c0) \<le> length rs" using c(2) len_rs by simp
  from start_no_external [OF c(1) this, of S] obtain c' where
    st: "start S c0 rs = Some (c', drop (nat (virtual_ports_num c0)) rs)" and
    sp: "serial_ports c' = list_set_names S
           (serial_ports c0 @ ok_names (take (nat (virtual_ports_num c0)) rs))"
    by blast
  have st': "start S c0 rs = Some (c', [])" using st c(2) len_rs by simp
  have sp': "serial_ports c' = list_set_names S (ok_names rs)" using sp c(2,3) len_rs by simp
  have net: "net_start E S pty c0 = Some (c', w\<lparr>outbox := []\<rparr>)"
    using c(1,2) st' rs by (simp add: net_start_def hand_over_def w_def)
  have len: "length (serial_ports c') = length (remdups (ok_names rs))"
    using sp' length_list_set_names [OF S] by simp
  have "length (remdups (ok_names rs)) \<le> length rs"
    using length_remdups_leq [of "ok_names rs"] length_ok_names [of rs] by linarith
  with len len_rs n have bound: "int (length (serial_ports c')) \<le> n" by simp
  have full: "int (length (serial_ports c')) = n \<and> set (serial_ports c') = set names"
    if h: "pty = map Inr ps @ rest \<and> int (length ps) = n \<and>
           attempts_succeed E ps names \<and> distinct names" for ps names rest
  proof -
    have a: "openpty_func (new_worker pty) = map Inr ps @ rest"
      and b: "set (map fst ps) \<inter> set (selector (new_worker pty)) = {}"
      using h by (simp_all add: new_worker_def)
    have ok: "attempts_succeed E ps names" and lp: "length ps = nat n" and d: "distinct names"
      using h by auto
    have "outbox (generate_loop E (length ps) (new_worker pty)) =
            outbox (new_worker pty) @ map OK names"
      by (rule generate_loop_success [OF a ok b])
    then have r: "rs = map OK names" using rs0 lp by simp
    have "map (\<lambda>p. ttyname E (snd p)) ps = map Inr names"
      using ok by (simp add: attempts_succeed_def)
    then have "length names = length ps" by (metis length_map)
    then show ?thesis
      using sp' len lp d S n r by (simp add: distinct_remdups_id)
  qed
  show ?thesis
  proof (intro exI conjI allI impI)
    show "vsn_init n (Some []) lb = vsn_init n None lb" by (simp add: vsn_init_def)
    show "net_start E S pty (vsn_init n None lb) = Some (c', w\<lparr>outbox := []\<rparr>)"
      using net by (simp add: c0_def)
    show "int (length (serial_ports c')) \<le> n" by (rule bound)
    show "int (length (serial_ports c')) = n"
      if "pty = map Inr ps @ rest \<and> int (length ps) = n \<and>
           attempts_succeed E ps names \<and> distinct names" for ps names rest
      using full [OF that] by simp
    show "set (serial_ports c') = set names"
      if "pty = map Inr ps @ rest \<and> int (length ps) = n \<and>
           attempts_succeed E ps names \<and> distinct names" for ps names rest
      using full [OF that] by simp
  qed
qed

theorem start_name_list_size_witness:
  "permutes_lists insertion_order \<and> (0::int) \<le> 2
   \<and> attempts_succeed demo_env [(10, 11), (12, 13)] [''/dev/pts/1'', ''/dev/pts/2'']
   \<and> (\<exists>c w. net_start demo_env insertion_order [Inr (10, 11), Inr (12, 13)]
                (vsn_init 2 None False) = Some (c, w)
             \<and> int (length (serial_ports c)) = 2)"
proof -
  have h1: "permutes_lists insertion_order" by (rule permutes_insertion_order)
  have h2: "(0::int) \<le> 2" by simp
  have h3: "attempts_succeed demo_env [(10, 11), (12, 13)] [''/dev/pts/1'', ''/dev/pts/2'']"
    by (simp add: attempts_succeed_def demo_env_def)
  have h4: "[Inr (10, 11), Inr (12, 13)] =
              map Inr [(10::int, 11::int), (12, 13)] @ ([] :: (exn + fd \<times> fd) list)
      \<and> int (length [(10::int, 11::int), (12, 13)]) = 2
      \<and> attempts_succeed demo_env [(10, 11), (12, 13)] [''/dev/pts/1'', ''/dev/pts/2'']
      \<and> distinct [''/dev/pts/1'', ''/dev/pts/2'']" using h3 by simp
  have "\<exists>c w. net_start demo_env insertion_order [Inr (10, 11), Inr (12, 13)]
                (vsn_init 2 None False) = Some (c, w) \<and> int (length (serial_ports c)) = 2"
    using start_name_list_size [OF h1 h2, where E = demo_env and lb = False
        and pty = "[Inr (10, 11), Inr (12, 13)]"]
  proof (elim exE conjE)
    fix c w
    assume net: "net_start demo_env insertion_order [Inr (10, 11), Inr (12, 13)]
                (vsn_init 2 None False) = Some (c, w)"
      and imp: "\<forall>ps names rest.
                 [Inr (10, 11), Inr (12, 13)] = map Inr ps @ rest \<and> int (length ps) = 2 \<and>
                 attempts_succeed demo_env ps names \<and> distinct names
                 \<longrightarrow> int (length (serial_ports c)) = 2 \<and> set (serial_ports c) = set names"
    from h4 imp [rule_format, of "[(10, 11), (12, 13)]" "[]" "[''/dev/pts/1'', ''/dev/pts/2'']"]
    have "int (length (serial_ports c)) = 2" by simp
    with net show ?thesis by (intro exI conjI)
  qed
  with h1 h2 h3 show ?thesis by simp
qed

text \<open>
  The claim as stated asks only that the factory succeeds. A factory that returns the
  same pair of descriptors on both calls succeeds twice, but the second
  \<^verbatim>\<open>selector.register\<close> raises and the worker answers \<open>ERROR\<close>: one name for \<open>n = 2\<close>.
\<close>

theorem start_same_pair_twice_counterexample:
  "port_names (net_start demo_env insertion_order [Inr (10, 11), Inr (10, 11)]
                 (vsn_init 2 None False)) = Some [''/dev/pts/1'']"
  by code_simp

section \<open>Stopping\<close>

text \<open>
  Claim C7, amended. \<^verbatim>\<open>stop\<close> on a running controller sends \<open>Stop\<close>, forgets the
  process and both pipe ends and empties the name list, whatever the worker does (the
  worker is no argument of \<open>stop\<close>); it keeps the external descriptor list, the
  virtual-port count and the loopback flag. On a stopped controller it changes nothing,
  so a second \<^verbatim>\<open>stop\<close> is a no-op.
\<close>

theorem stop_clears_names_keeps_configuration:
  "(proc c \<longrightarrow>
      \<not> proc (stop c) \<and> \<not> master_io (stop c) \<and> \<not> worker_io (stop c)
      \<and> serial_ports (stop c) = [] \<and> sent (stop c) = sent c @ [Cmd_stop]
      \<and> external_ports (stop c) = external_ports c
      \<and> virtual_ports_num (stop c) = virtual_ports_num c
      \<and> loopback (stop c) = loopback c)
   \<and> (\<not> proc c \<longrightarrow> stop c = c)
   \<and> stop (stop c) = stop c"
  by (simp add: stop_def logger_def Let_def)

theorem stop_clears_names_keeps_configuration_witness:
  "proc running_ctl \<and> \<not> proc (stop running_ctl) \<and> serial_ports (stop running_ctl) = []
   \<and> external_ports (stop running_ctl) = [ttyS0] \<and> virtual_ports_num (stop running_ctl) = 1
   \<and> \<not> proc (vsn_init 2 None False)
   \<and> stop (vsn_init 2 None False) = vsn_init 2 None False"
  using stop_clears_names_keeps_configuration [of running_ctl]
    stop_clears_names_keeps_configuration [of "vsn_init 2 None False"]
  by (simp add: running_ctl_def vsn_init_def)

text \<open>
  The claim as stated also resets the descriptor list and the virtual-port count. After
  a start that created one of two requested ptys and connected \<^verbatim>\<open>/dev/ttyS0\<close>,
  \<^verbatim>\<open>stop\<close> leaves the descriptor in the list and the count at 1.
\<close>

theorem stop_keeps_descriptors_counterexample:
  "map_option (external_ports \<circ> stop \<circ> fst)
     (net_start demo_env insertion_order [Inr (10, 11), Inl (OSError ''out of pty devices'')]
        (vsn_init 2 (Some [ttyS0]) False))
     = Some [ttyS0]
   \<and> map_option (virtual_ports_num \<circ> stop \<circ> fst)
     (net_start demo_env insertion_order [Inr (10, 11), Inl (OSError ''out of pty devices'')]
        (vsn_init 2 (Some [ttyS0]) False))
     = Some 1"
  by code_simp

section \<open>Mutations without a worker\<close>

text \<open>
  Claim C8. On a controller whose \<^verbatim>\<open>__master_io\<close> is \<^verbatim>\<open>None\<close>, \<^verbatim>\<open>add\<close>, \<^verbatim>\<open>create\<close>
  and \<^verbatim>\<open>remove\<close> return without receiving anything and leave every field as it was:
  nothing is sent, nothing is logged. That is the case of a freshly constructed
  controller (before \<^verbatim>\<open>start\<close>) and of a controller after \<^verbatim>\<open>stop\<close> has run.
\<close>

theorem mutations_without_worker_are_noops:
  "(\<not> master_io c \<longrightarrow>
      add S xs c inbox = Some (c, inbox) \<and> create k c inbox = Some (c, inbox)
      \<and> remove S ns c inbox = Some (c, inbox))
   \<and> add S xs (vsn_init n ext lb) inbox = Some (vsn_init n ext lb, inbox)
   \<and> create k (vsn_init n ext lb) inbox = Some (vsn_init n ext lb, inbox)
   \<and> remove S ns (vsn_init n ext lb) inbox = Some (vsn_init n ext lb, inbox)
   \<and> (proc c \<longrightarrow>
      add S xs (stop c) inbox = Some (stop c, inbox)
      \<and> create k (stop c) inbox = Some (stop c, inbox)
      \<and> remove S ns (stop c) inbox = Some (stop c, inbox))"
  by (simp add: add_def create_def remove_def vsn_init_def stop_def logger_def Let_def)

theorem mutations_without_worker_are_noops_witness:
  "\<not> master_io (vsn_init 2 None False)
   \<and> add insertion_order [ttyS0] (vsn_init 2 None False) [] = Some (vsn_init 2 None False, [])
   \<and> proc running_ctl
   \<and> add insertion_order [ttyS0] (stop running_ctl) [] = Some (stop running_ctl, [])
   \<and> create 3 (stop running_ctl) [] = Some (stop running_ctl, [])
   \<and> remove insertion_order [''/dev/pts/1''] (stop running_ctl) [] = Some (stop running_ctl, [])"
  using mutations_without_worker_are_noops
      [of "vsn_init 2 None False" insertion_order "[ttyS0]" "[]" 3 "[''/dev/pts/1'']" 2 None False]
    mutations_without_worker_are_noops
      [of running_ctl insertion_order "[ttyS0]" "[]" 3 "[''/dev/pts/1'']" 2 None False]
  by (simp add: running_ctl_def vsn_init_def)

section \<open>The pair\<close>




section \<open>The name list holds no duplicates\<close>

lemma start_names_distinct:
  "permutes_lists S \<Longrightarrow> start S c inbox = Some (c', rest) \<Longrightarrow> distinct (serial_ports c')"
  by (auto simp: start_def Let_def logger_def split: option.splits prod.splits)

lemma add_names_distinct:
  "permutes_lists S \<Longrightarrow> distinct (serial_ports c) \<Longrightarrow> add S xs c inbox = Some (c', rest) \<Longrightarrow>
   distinct (serial_ports c')"
  by (auto simp: add_def Let_def split: option.splits prod.splits if_splits)

lemma remove_names_distinct:
  "permutes_lists S \<Longrightarrow> distinct (serial_ports c) \<Longrightarrow> remove S ns c inbox = Some (c', rest) \<Longrightarrow>
   distinct (serial_ports c')"
  by (auto simp: remove_def Let_def split: option.splits prod.splits if_splits)

lemma create_result:
  assumes "create k c inbox = Some (c', rest)" and "master_io c"
  shows "serial_ports c' = serial_ports c @ ok_names (take (nat k) inbox)"
proof (cases "nat k \<le> length inbox")
  case True
  from recv_created_result [OF True, of "c\<lparr>sent := sent c @ [Cmd_create k]\<rparr>"] assms
  show ?thesis by (auto simp: create_def)
next
  case False
  then have "recv_created (nat k) (c\<lparr>sent := sent c @ [Cmd_create k]\<rparr>) inbox = None"
    by (intro recv_created_blocks) simp
  with assms show ?thesis by (simp add: create_def)
qed

text \<open>
  Claim C10, amended. Given that \<^verbatim>\<open>list(set(...))\<close> enumerates each element once:
  the constructor, \<^verbatim>\<open>start\<close>, \<^verbatim>\<open>add\<close>, \<^verbatim>\<open>remove\<close> and \<^verbatim>\<open>stop\<close> leave a name list
  without duplicates for every sequence of responses, and \<^verbatim>\<open>create\<close> does so when the
  names of the \<open>OK\<close> responses it consumes are pairwise distinct and not in the list yet.
\<close>

theorem name_list_stays_duplicate_free:
  assumes "permutes_lists S"
  shows "distinct (serial_ports (vsn_init n ext lb))
    \<and> (start S c inbox = Some (c', rest) \<longrightarrow> distinct (serial_ports c'))
    \<and> (distinct (serial_ports c) \<and> add S xs c inbox = Some (c', rest) \<longrightarrow>
         distinct (serial_ports c'))
    \<and> (distinct (serial_ports c) \<and> remove S ns c inbox = Some (c', rest) \<longrightarrow>
         distinct (serial_ports c'))
    \<and> (distinct (serial_ports c) \<longrightarrow> distinct (serial_ports (stop c)))
    \<and> (distinct (serial_ports c) \<and> create k c inbox = Some (c', rest) \<and>
        distinct (ok_names (take (nat k) inbox)) \<and>
        set (ok_names (take (nat k) inbox)) \<inter> set (serial_ports c) = {} \<longrightarrow>
         distinct (serial_ports c'))"
proof (intro conjI impI)
  show "distinct (serial_ports (vsn_init n ext lb))" by (simp add: vsn_init_def)
  show "distinct (serial_ports c')" if "start S c inbox = Some (c', rest)"
    using start_names_distinct [OF assms that] .
  show "distinct (serial_ports c')"
    if "distinct (serial_ports c) \<and> add S xs c inbox = Some (c', rest)"
    using add_names_distinct [OF assms] that by blast
  show "distinct (serial_ports c')"
    if "distinct (serial_ports c) \<and> remove S ns c inbox = Some (c', rest)"
    using remove_names_distinct [OF assms] that by blast
  show "distinct (serial_ports (stop c))" if "distinct (serial_ports c)"
    using that by (simp add: stop_def logger_def Let_def)
  show "distinct (serial_ports c')"
    if h: "distinct (serial_ports c) \<and> create k c inbox = Some (c', rest) \<and>
        distinct (ok_names (take (nat k) inbox)) \<and>
        set (ok_names (take (nat k) inbox)) \<inter> set (serial_ports c) = {}"
  proof (cases "master_io c")
    case True
    with h create_result [of k c inbox c' rest] show ?thesis by auto
  next
    case False
    with h show ?thesis by (auto simp: create_def)
  qed
qed

theorem name_list_stays_duplicate_free_witness:
  "permutes_lists insertion_order
   \<and> (\<exists>c'. start insertion_order (vsn_init 2 None False) [OK ''/dev/pts/1'', OK ''/dev/pts/1'']
              = Some (c', []) \<and> distinct (serial_ports c'))
   \<and> distinct (serial_ports running_ctl)
   \<and> (\<exists>c'. add insertion_order [ttyS0] running_ctl [EXIST ''/dev/ttyS0''] = Some (c', [])
           \<and> distinct (serial_ports c'))
   \<and> (\<exists>c'. remove insertion_order [''/dev/pts/1''] running_ctl [OK ''/dev/pts/1''] = Some (c', [])
           \<and> distinct (serial_ports c'))
   \<and> distinct (serial_ports (stop running_ctl))
   \<and> distinct (ok_names (take (nat 1) [OK ''/dev/pts/2'']))
   \<and> set (ok_names (take (nat 1) [OK ''/dev/pts/2''])) \<inter> set (serial_ports running_ctl) = {}
   \<and> (\<exists>c'. create 1 running_ctl [OK ''/dev/pts/2''] = Some (c', [])
           \<and> distinct (serial_ports c'))"
proof -
  note S = permutes_insertion_order
  have d: "distinct (serial_ports running_ctl)" by (simp add: running_ctl_def)
  obtain c1 where c1: "start insertion_order (vsn_init 2 None False)
      [OK ''/dev/pts/1'', OK ''/dev/pts/1''] = Some (c1, [])"
    by (simp add: start_def vsn_init_def Let_def logger_def on_created_def eval_nat_numeral
        update_ext_ports_def ext_ports_remove_duplicates_def)
  obtain c2 where c2: "add insertion_order [ttyS0] running_ctl [EXIST ''/dev/ttyS0''] = Some (c2, [])"
    by (simp add: add_def add_message_def list_set_descs_def insertion_order_def running_ctl_def
        Let_def)
  obtain c3 where c3: "remove insertion_order [''/dev/pts/1''] running_ctl [OK ''/dev/pts/1'']
      = Some (c3, [])"
    by (simp add: remove_def running_ctl_def Let_def)
  obtain c4 where c4: "create 1 running_ctl [OK ''/dev/pts/2''] = Some (c4, [])"
    by (simp add: create_def running_ctl_def)
  have o: "distinct (ok_names (take (nat 1) [OK ''/dev/pts/2'']))"
    "set (ok_names (take (nat 1) [OK ''/dev/pts/2''])) \<inter> set (serial_ports running_ctl) = {}"
    by (simp_all add: running_ctl_def)
  have t1: "distinct (serial_ports c1)"
    using name_list_stays_duplicate_free [OF S, of 2 None False "vsn_init 2 None False"
        "[OK ''/dev/pts/1'', OK ''/dev/pts/1'']" c1 "[]"] c1 by simp
  have t2: "distinct (serial_ports c2)"
    using name_list_stays_duplicate_free [OF S, of 2 None False running_ctl
        "[EXIST ''/dev/ttyS0'']" c2 "[]" "[ttyS0]"] c2 d by simp
  have t3: "distinct (serial_ports c3)"
    using name_list_stays_duplicate_free [OF S, of 2 None False running_ctl
        "[OK ''/dev/pts/1'']" c3 "[]" "[]" "[''/dev/pts/1'']"] c3 d by simp
  have t4: "distinct (serial_ports (stop running_ctl))"
    using name_list_stays_duplicate_free [OF S, of 2 None False running_ctl] d by simp
  have t5: "distinct (serial_ports c4)"
    using name_list_stays_duplicate_free [OF S, of 2 None False running_ctl
        "[OK ''/dev/pts/2'']" c4 "[]" "[]" "[]" 1] c4 d o by simp
  from S d c1 c2 c3 c4 o t1 t2 t3 t4 t5 show ?thesis by simp
qed

text \<open>
  \<^verbatim>\<open>create\<close> appends every \<open>OK\<close> name without looking at the list. A factory whose
  second pty has the slave of the first makes the worker answer the same name twice.
\<close>

theorem create_repeated_name_counterexample:
  "port_names
     (Option.bind
        (net_start demo_env insertion_order [Inr (10, 11), Inr (12, 11)] (vsn_init 1 None False))
        (net_create demo_env 1))
   = Some [''/dev/pts/1'', ''/dev/pts/1'']"
  by code_simp

section \<open>Removing ports\<close>

lemma remove_one_unregistered:
  "map_of (slave_names w) name = None \<Longrightarrow> remove_one E name w = send (NOT_EXIST name) w"
  by (simp add: remove_one_def)

lemma map_of_delete_same [simp]: "map_of (AList.delete k al) k = None"
  by (simp add: delete_conv')

lemma remove_one_clean:
  assumes "closes_cleanly E w name"
  shows "outbox (remove_one E name w) = outbox w @ [OK name]"
    and "map_of (slave_names (remove_one E name w)) name = None"
  using assms
  by (auto simp: closes_cleanly_def remove_one_def try_remove_def unregister_def send_def Let_def
           split: option.splits)

lemma remove_one_keeps_unregistered:
  "map_of (slave_names w) name = None \<Longrightarrow> map_of (slave_names (remove_one E x w)) name = None"
  by (auto simp: remove_one_def try_remove_def unregister_def send_def Let_def delete_conv'
           split: option.splits)

lemma remove_ports_keeps_unregistered:
  "map_of (slave_names w) name = None \<Longrightarrow> map_of (slave_names (remove_ports E xs w)) name = None"
  by (induction xs arbitrary: w) (auto simp: remove_one_keeps_unregistered)

lemma remove_ports_append:
  "remove_ports E (xs @ ys) w = remove_ports E ys (remove_ports E xs w)"
  by (induction xs arbitrary: w) auto

lemma remove_ports_take_Suc:
  "i < length ns \<Longrightarrow>
   remove_ports E (take (Suc i) ns) w = remove_one E (ns ! i) (remove_ports E (take i ns) w)"
  by (simp add: take_Suc_conv_app_nth remove_ports_append)

lemma remove_ports_nth:
  assumes "i < length ns" and "outbox w = []"
  shows "outbox (remove_one E (ns ! i) (remove_ports E (take i ns) w)) =
           take (Suc i) (outbox (remove_ports E ns w))"
proof -
  have split: "ns = take (Suc i) ns @ drop (Suc i) ns" by simp
  obtain rs1 where rs1: "outbox (remove_ports E (take (Suc i) ns) w) = outbox w @ rs1"
      "length rs1 = length (take (Suc i) ns)"
    using remove_ports_outbox by blast
  obtain rs2 where rs2: "outbox (remove_ports E (drop (Suc i) ns) (remove_ports E (take (Suc i) ns) w))
       = outbox (remove_ports E (take (Suc i) ns) w) @ rs2"
    using remove_ports_outbox by blast
  have "remove_ports E ns w =
          remove_ports E (drop (Suc i) ns) (remove_ports E (take (Suc i) ns) w)"
    using remove_ports_append [of E "take (Suc i) ns" "drop (Suc i) ns" w] by simp
  then have "outbox (remove_ports E ns w) = rs1 @ rs2"
    using rs1(1) rs2 assms(2) by simp
  moreover have "length rs1 = Suc i" using rs1(2) assms(1) by simp
  ultimately have "take (Suc i) (outbox (remove_ports E ns w)) = rs1" by simp
  then show ?thesis
    using rs1(1) assms remove_ports_take_Suc [of i ns E w] by simp
qed

lemma remove_ports_reply:
  assumes "i < length ns" and "outbox w = []"
    and "outbox (remove_one E (ns ! i) (remove_ports E (take i ns) w)) =
           outbox (remove_ports E (take i ns) w) @ [r]"
  shows "outbox (remove_ports E ns w) ! i = r"
proof -
  obtain rs0 where rs0: "outbox (remove_ports E (take i ns) w) = outbox w @ rs0"
      "length rs0 = length (take i ns)"
    using remove_ports_outbox by blast
  have "take (Suc i) (outbox (remove_ports E ns w)) = rs0 @ [r]"
    using remove_ports_nth [OF assms(1,2), of E] assms(2,3) rs0(1) by simp
  moreover have "length rs0 = i" using rs0(2) assms(1) by simp
  ultimately have "take (Suc i) (outbox (remove_ports E ns w)) ! i = r"
    by (simp add: nth_append)
  then show ?thesis by simp
qed

lemma recv_removed_result:
  "k \<le> length inbox \<Longrightarrow>
   \<exists>lg. recv_removed k acc c inbox =
     Some (acc @ ok_names (take k inbox), c\<lparr>logged := lg\<rparr>, drop k inbox)"
proof (induction k acc c inbox rule: recv_removed.induct)
  case (1 removed_ports c inbox)
  show ?case by (intro exI [of _ "logged c"]) simp
next
  case (2 k removed_ports c)
  then show ?case by simp
next
  case (3 k removed_ports c r inbox)
  then have k: "k \<le> length inbox" by simp
  show ?case
  proof (cases r)
    case (OK name)
    from 3 OK k obtain lg where
      "recv_removed k (removed_ports @ [name]) c inbox =
         Some ((removed_ports @ [name]) @ ok_names (take k inbox), c\<lparr>logged := lg\<rparr>, drop k inbox)"
      by blast
    with OK show ?thesis by (intro exI [of _ lg]) simp
  next
    case (ERROR e)
    from 3 ERROR k obtain lg where
      "recv_removed k removed_ports (logger (Error ''VSN: ERROR (%s)'') c) inbox =
         Some (removed_ports @ ok_names (take k inbox),
               (logger (Error ''VSN: ERROR (%s)'') c)\<lparr>logged := lg\<rparr>, drop k inbox)"
      by blast
    with ERROR show ?thesis by (intro exI [of _ lg]) (simp add: logger_def)
  next
    case (EXIST name)
    from 3 EXIST k obtain lg where
      "recv_removed k removed_ports c inbox =
         Some (removed_ports @ ok_names (take k inbox), c\<lparr>logged := lg\<rparr>, drop k inbox)"
      by blast
    with EXIST show ?thesis by (intro exI [of _ lg]) simp
  next
    case (NOT_EXIST name)
    from 3 NOT_EXIST k obtain lg where
      "recv_removed k removed_ports (logger (Warning ''VSN: Port %s not found'') c) inbox =
         Some (removed_ports @ ok_names (take k inbox),
               (logger (Warning ''VSN: Port %s not found'') c)\<lparr>logged := lg\<rparr>, drop k inbox)"
      by blast
    with NOT_EXIST show ?thesis by (intro exI [of _ lg]) (simp add: logger_def)
  qed
qed

lemma forget_port_logged: "forget_port p (c\<lparr>logged := lg\<rparr>) = (forget_port p c)\<lparr>logged := lg\<rparr>"
  by (simp add: forget_port_def split: option.splits)

lemma forget_port_sent: "forget_port p (c\<lparr>sent := m\<rparr>) = (forget_port p c)\<lparr>sent := m\<rparr>"
  by (simp add: forget_port_def split: option.splits)

lemma forget_ports_logged: "forget_ports ps (c\<lparr>logged := lg\<rparr>) = (forget_ports ps c)\<lparr>logged := lg\<rparr>"
  by (induction ps arbitrary: c) (simp_all add: forget_port_logged)

lemma forget_ports_sent: "forget_ports ps (c\<lparr>sent := m\<rparr>) = (forget_ports ps c)\<lparr>sent := m\<rparr>"
  by (induction ps arbitrary: c) (simp_all add: forget_port_sent)

lemma forget_port_others:
  "serial_ports (forget_port p c) = serial_ports c" "proc (forget_port p c) = proc c"
  "master_io (forget_port p c) = master_io c" "sent (forget_port p c) = sent c"
  by (simp_all add: forget_port_def split: option.splits)

lemma forget_ports_others:
  "serial_ports (forget_ports ps c) = serial_ports c \<and> proc (forget_ports ps c) = proc c \<and>
   master_io (forget_ports ps c) = master_io c \<and> sent (forget_ports ps c) = sent c"
  by (induction ps arbitrary: c) (simp_all add: forget_port_others)

lemma remove_result:
  assumes "master_io c" and "length ns \<le> length inbox"
  shows "\<exists>c'. remove S ns c inbox = Some (c', drop (length ns) inbox)
     \<and> serial_ports c' = list_set_names S
          (filter (\<lambda>n. n \<notin> set (ok_names (take (length ns) inbox))) (serial_ports c))
     \<and> external_ports c' = external_ports (forget_ports (ok_names (take (length ns) inbox)) c)
     \<and> virtual_ports_num c' =
         virtual_ports_num (forget_ports (ok_names (take (length ns) inbox)) c)
     \<and> sent c' = sent c @ [Cmd_remove ns] \<and> proc c' = proc c \<and> master_io c'"
proof -
  let ?oks = "ok_names (take (length ns) inbox)"
  from recv_removed_result [OF assms(2), of "[]" "c\<lparr>sent := sent c @ [Cmd_remove ns]\<rparr>"]
  obtain lg where lg: "recv_removed (length ns) [] (c\<lparr>sent := sent c @ [Cmd_remove ns]\<rparr>) inbox =
     Some (?oks, c\<lparr>sent := sent c @ [Cmd_remove ns], logged := lg\<rparr>, drop (length ns) inbox)"
    by auto
  show ?thesis
    using assms(1) lg forget_ports_others [of ?oks c]
    by (simp add: remove_def forget_ports_logged forget_ports_sent)
qed

lemma delete_first_None: "delete_first p xs = None \<longleftrightarrow> p \<notin> port ` set xs"
  by (induction xs) auto

lemma delete_first_Some:
  "delete_first p xs = Some l \<Longrightarrow>
   \<exists>pre d post. xs = pre @ d # post \<and> port d = p \<and> p \<notin> port ` set pre \<and> l = pre @ post"
proof (induction xs arbitrary: l)
  case Nil
  then show ?case by simp
next
  case (Cons x xs)
  show ?case
  proof (cases "port x = p")
    case True
    with Cons.prems have "l = xs" by simp
    with True show ?thesis by (intro exI [of _ "[]"] exI [of _ x] exI [of _ xs]) simp
  next
    case False
    with Cons.prems obtain l' where l': "delete_first p xs = Some l'" "l = x # l'" by auto
    from Cons.IH [OF l'(1)] obtain pre d post where
      "xs = pre @ d # post" "port d = p" "p \<notin> port ` set pre" "l' = pre @ post" by blast
    with False l'(2) show ?thesis
      by (intro exI [of _ "x # pre"] exI [of _ d] exI [of _ post]) simp
  qed
qed

lemma forget_port_cases:
  "(p \<notin> port ` set (external_ports c) \<longrightarrow>
      forget_port p c = c\<lparr>virtual_ports_num := virtual_ports_num c - 1\<rparr>)
   \<and> (p \<in> port ` set (external_ports c) \<longrightarrow>
      (\<exists>pre d post. external_ports c = pre @ d # post \<and> port d = p \<and> p \<notin> port ` set pre \<and>
         forget_port p c = c\<lparr>external_ports := pre @ post\<rparr>))"
proof (cases "delete_first p (external_ports c)")
  case None
  then show ?thesis using delete_first_None [of p "external_ports c"]
    by (simp add: forget_port_def)
next
  case (Some l)
  then have "p \<in> port ` set (external_ports c)"
    using delete_first_None [of p "external_ports c"] by auto
  moreover from delete_first_Some [OF Some] obtain pre d post where
    "external_ports c = pre @ d # post" "port d = p" "p \<notin> port ` set pre" "l = pre @ post"
    by blast
  ultimately show ?thesis using Some by (auto simp: forget_port_def)
qed

lemma remove_one_OK_unregisters:
  "outbox (remove_one E name w) = outbox w @ [OK m] \<Longrightarrow>
   map_of (slave_names (remove_one E name w)) name = None"
  by (auto simp: remove_one_def try_remove_def unregister_def send_def Let_def
           split: option.splits if_splits)

lemma remove_ports_replies:
  assumes empty: "outbox w = []" and i: "i < length ns"
  shows "(map_of (slave_names (remove_ports E (take i ns) w)) (ns ! i) = None \<longrightarrow>
            outbox (remove_ports E ns w) ! i = NOT_EXIST (ns ! i))
       \<and> (closes_cleanly E (remove_ports E (take i ns) w) (ns ! i) \<longrightarrow>
            outbox (remove_ports E ns w) ! i = OK (ns ! i))
       \<and> (outbox (remove_ports E ns w) ! i = OK (ns ! i) \<longrightarrow>
            (\<forall>j<length ns. i < j \<and> ns ! j = ns ! i \<longrightarrow>
               outbox (remove_ports E ns w) ! j = NOT_EXIST (ns ! j)))"
proof (intro conjI impI allI)
  let ?wi = "remove_ports E (take i ns) w"
  show "outbox (remove_ports E ns w) ! i = NOT_EXIST (ns ! i)"
    if "map_of (slave_names ?wi) (ns ! i) = None"
  proof (rule remove_ports_reply [OF i empty])
    show "outbox (remove_one E (ns ! i) ?wi) = outbox ?wi @ [NOT_EXIST (ns ! i)]"
      using remove_one_unregistered [OF that, of E] by simp
  qed
  show "outbox (remove_ports E ns w) ! i = OK (ns ! i)"
    if "closes_cleanly E ?wi (ns ! i)"
    by (rule remove_ports_reply [OF i empty]) (rule remove_one_clean(1) [OF that])
  show "outbox (remove_ports E ns w) ! j = NOT_EXIST (ns ! j)"
    if ok: "outbox (remove_ports E ns w) ! i = OK (ns ! i)"
      and j: "j < length ns" and ij: "i < j \<and> ns ! j = ns ! i" for j
  proof -
    obtain r where r: "outbox (remove_one E (ns ! i) ?wi) = outbox ?wi @ [r]"
      using remove_one_outbox by blast
    from remove_ports_reply [OF i empty r] ok have "r = OK (ns ! i)" by simp
    with r have un: "map_of (slave_names (remove_one E (ns ! i) ?wi)) (ns ! i) = None"
      by (intro remove_one_OK_unregisters) simp
    have "take (Suc i) (take j ns) = take (Suc i) ns"
      using ij by (simp add: min_def)
    moreover have "take (Suc i) (take j ns) @ drop (Suc i) (take j ns) = take j ns"
      by (rule append_take_drop_id)
    ultimately have "take j ns = take (Suc i) ns @ drop (Suc i) (take j ns)"
      by (rule subst [where P = "\<lambda>t. take j ns = t @ drop (Suc i) (take j ns)", OF _ sym])
    then have "remove_ports E (take j ns) w =
        remove_ports E (drop (Suc i) (take j ns)) (remove_ports E (take (Suc i) ns) w)"
      using remove_ports_append [of E "take (Suc i) ns" "drop (Suc i) (take j ns)" w] by simp
    then have "map_of (slave_names (remove_ports E (take j ns) w)) (ns ! j) = None"
      using un ij remove_ports_take_Suc [OF i, of E w]
      by (simp add: remove_ports_keeps_unregistered)
    from remove_one_unregistered [OF this, of E]
    have "outbox (remove_one E (ns ! j) (remove_ports E (take j ns) w)) =
            outbox (remove_ports E (take j ns) w) @ [NOT_EXIST (ns ! j)]" by simp
    from remove_ports_reply [OF j empty this] show ?thesis .
  qed
qed

text \<open>
  Claim C6, amended. A \<^verbatim>\<open>remove\<close> call on a running network returns with one response
  per name. For the name at each position: if it is not registered when its turn comes,
  the response is \<open>NOT_EXIST\<close> (never \<open>ERROR\<close>); if it is registered and its teardown
  raises nothing, the response is \<open>OK\<close>; and a later occurrence of a name answered
  \<open>OK\<close> is answered \<open>NOT_EXIST\<close>. The controller drops the names answered \<open>OK\<close> from
  its name list and, for each of them in turn, deletes the first external descriptor of
  that name if there is one and otherwise decrements the virtual-port count. Names
  answered \<open>NOT_EXIST\<close> change nothing: when no name is answered \<open>OK\<close>, the descriptor
  list and the count are as before and the name list holds the same names
  (\<^verbatim>\<open>list(set(...))\<close> may have reordered it).
\<close>

theorem remove_replies_and_bookkeeping:
  assumes S: "permutes_lists S" and run: "master_io c" and empty: "outbox w = []"
  shows "\<exists>c' rs. net_remove E S ns (c, w) = Some (c', (remove_ports E ns w)\<lparr>outbox := []\<rparr>)
     \<and> outbox (remove_ports E ns w) = rs \<and> length rs = length ns
     \<and> (\<forall>i<length ns.
          (map_of (slave_names (remove_ports E (take i ns) w)) (ns ! i) = None \<longrightarrow>
             rs ! i = NOT_EXIST (ns ! i))
        \<and> (closes_cleanly E (remove_ports E (take i ns) w) (ns ! i) \<longrightarrow> rs ! i = OK (ns ! i))
        \<and> (rs ! i = OK (ns ! i) \<longrightarrow>
             (\<forall>j<length ns. i < j \<and> ns ! j = ns ! i \<longrightarrow> rs ! j = NOT_EXIST (ns ! j))))
     \<and> set (serial_ports c') = set (serial_ports c) - set (ok_names rs)
     \<and> external_ports c' = external_ports (forget_ports (ok_names rs) c)
     \<and> virtual_ports_num c' = virtual_ports_num (forget_ports (ok_names rs) c)
     \<and> (ok_names rs = [] \<longrightarrow>
          external_ports c' = external_ports c \<and> virtual_ports_num c' = virtual_ports_num c
          \<and> set (serial_ports c') = set (serial_ports c))
     \<and> (\<forall>p c0.
          (p \<notin> port ` set (external_ports c0) \<longrightarrow>
             forget_port p c0 = c0\<lparr>virtual_ports_num := virtual_ports_num c0 - 1\<rparr>)
        \<and> (p \<in> port ` set (external_ports c0) \<longrightarrow>
             (\<exists>pre d post. external_ports c0 = pre @ d # post \<and> port d = p \<and>
                p \<notin> port ` set pre \<and> forget_port p c0 = c0\<lparr>external_ports := pre @ post\<rparr>)))"
proof -
  define w' where "w' = remove_ports E ns w"
  define rs where "rs = outbox w'"
  have len: "length rs = length ns"
    using remove_ports_outbox [of E ns w] empty by (auto simp: rs_def w'_def)
  then have "length ns \<le> length rs" by simp
  from remove_result [OF run this, of S] len obtain c' where
    rem: "remove S ns c rs = Some (c', [])"
    and sp: "serial_ports c' = list_set_names S
          (filter (\<lambda>n. n \<notin> set (ok_names rs)) (serial_ports c))"
    and ep: "external_ports c' = external_ports (forget_ports (ok_names rs) c)"
    and vp: "virtual_ports_num c' = virtual_ports_num (forget_ports (ok_names rs) c)"
    by auto
  have net: "net_remove E S ns (c, w) = Some (c', w'\<lparr>outbox := []\<rparr>)"
    using run rem by (simp add: net_remove_def process_cmd_def hand_over_def rs_def w'_def)
  have names: "set (serial_ports c') = set (serial_ports c) - set (ok_names rs)"
    using sp S by auto
  have replies: "\<forall>i<length ns.
          (map_of (slave_names (remove_ports E (take i ns) w)) (ns ! i) = None \<longrightarrow>
             rs ! i = NOT_EXIST (ns ! i))
        \<and> (closes_cleanly E (remove_ports E (take i ns) w) (ns ! i) \<longrightarrow> rs ! i = OK (ns ! i))
        \<and> (rs ! i = OK (ns ! i) \<longrightarrow>
             (\<forall>j<length ns. i < j \<and> ns ! j = ns ! i \<longrightarrow> rs ! j = NOT_EXIST (ns ! j)))"
    using remove_ports_replies [OF empty, of _ ns E] by (simp add: rs_def w'_def)
  have none: "external_ports c' = external_ports c \<and> virtual_ports_num c' = virtual_ports_num c
          \<and> set (serial_ports c') = set (serial_ports c)" if "ok_names rs = []"
    using that ep vp names by simp
  show ?thesis
  proof (intro exI [of _ c'] exI [of _ rs] conjI)
    show "net_remove E S ns (c, w) = Some (c', (remove_ports E ns w)\<lparr>outbox := []\<rparr>)"
      using net by (simp add: w'_def)
    show "outbox (remove_ports E ns w) = rs" by (simp add: rs_def w'_def)
    show "length rs = length ns" by (rule len)
    show "\<forall>i<length ns.
          (map_of (slave_names (remove_ports E (take i ns) w)) (ns ! i) = None \<longrightarrow>
             rs ! i = NOT_EXIST (ns ! i))
        \<and> (closes_cleanly E (remove_ports E (take i ns) w) (ns ! i) \<longrightarrow> rs ! i = OK (ns ! i))
        \<and> (rs ! i = OK (ns ! i) \<longrightarrow>
             (\<forall>j<length ns. i < j \<and> ns ! j = ns ! i \<longrightarrow> rs ! j = NOT_EXIST (ns ! j)))"
      by (rule replies)
    show "set (serial_ports c') = set (serial_ports c) - set (ok_names rs)" by (rule names)
    show "external_ports c' = external_ports (forget_ports (ok_names rs) c)" by (rule ep)
    show "virtual_ports_num c' = virtual_ports_num (forget_ports (ok_names rs) c)" by (rule vp)
    show "ok_names rs = [] \<longrightarrow>
          external_ports c' = external_ports c \<and> virtual_ports_num c' = virtual_ports_num c
          \<and> set (serial_ports c') = set (serial_ports c)"
      using none by blast
    show "\<forall>p c0.
          (p \<notin> port ` set (external_ports c0) \<longrightarrow>
             forget_port p c0 = c0\<lparr>virtual_ports_num := virtual_ports_num c0 - 1\<rparr>)
        \<and> (p \<in> port ` set (external_ports c0) \<longrightarrow>
             (\<exists>pre d post. external_ports c0 = pre @ d # post \<and> port d = p \<and>
                p \<notin> port ` set pre \<and> forget_port p c0 = c0\<lparr>external_ports := pre @ post\<rparr>))"
      using forget_port_cases by blast
  qed
qed

theorem remove_replies_and_bookkeeping_witness:
  "permutes_lists insertion_order \<and> master_io three_ports_ctl \<and> outbox three_ports = []
   \<and> closes_cleanly demo_env three_ports ''/dev/pts/0''
   \<and> outbox (remove_ports demo_env [''/dev/pts/0'', ''/dev/pts/0''] three_ports)
        = [OK ''/dev/pts/0'', NOT_EXIST ''/dev/pts/0'']
   \<and> (\<exists>c' w'. net_remove demo_env insertion_order [''/dev/pts/0'', ''/dev/pts/0'']
                  (three_ports_ctl, three_ports) = Some (c', w')
          \<and> set (serial_ports c') = {''/dev/pts/1'', ''/dev/pts/2''}
          \<and> virtual_ports_num c' = 2 \<and> external_ports c' = [])"
proof -
  let ?ns = "[''/dev/pts/0'', ''/dev/pts/0'']"
  note S = permutes_insertion_order
  have run: "master_io three_ports_ctl" by (simp add: three_ports_ctl_def)
  have empty: "outbox three_ports = []" by (simp add: three_ports_def)
  have clean: "closes_cleanly demo_env three_ports ''/dev/pts/0''"
    by (simp add: closes_cleanly_def three_ports_def demo_env_def)
  have "outbox (remove_ports demo_env ?ns three_ports) = [OK ''/dev/pts/0'', NOT_EXIST ''/dev/pts/0'']
     \<and> (\<exists>c' w'. net_remove demo_env insertion_order ?ns (three_ports_ctl, three_ports) = Some (c', w')
          \<and> set (serial_ports c') = {''/dev/pts/1'', ''/dev/pts/2''}
          \<and> virtual_ports_num c' = 2 \<and> external_ports c' = [])"
    using remove_replies_and_bookkeeping [OF S run empty, of demo_env ?ns]
  proof (elim exE conjE)
    fix c' rs
    assume net: "net_remove demo_env insertion_order ?ns (three_ports_ctl, three_ports) =
        Some (c', (remove_ports demo_env ?ns three_ports)\<lparr>outbox := []\<rparr>)"
      and rs: "outbox (remove_ports demo_env ?ns three_ports) = rs"
      and len: "length rs = length ?ns"
      and replies: "\<forall>i<length ?ns.
          (map_of (slave_names (remove_ports demo_env (take i ?ns) three_ports)) (?ns ! i) = None \<longrightarrow>
             rs ! i = NOT_EXIST (?ns ! i))
        \<and> (closes_cleanly demo_env (remove_ports demo_env (take i ?ns) three_ports) (?ns ! i) \<longrightarrow>
             rs ! i = OK (?ns ! i))
        \<and> (rs ! i = OK (?ns ! i) \<longrightarrow>
             (\<forall>j<length ?ns. i < j \<and> ?ns ! j = ?ns ! i \<longrightarrow> rs ! j = NOT_EXIST (?ns ! j)))"
      and names: "set (serial_ports c') = set (serial_ports three_ports_ctl) - set (ok_names rs)"
      and ep: "external_ports c' = external_ports (forget_ports (ok_names rs) three_ports_ctl)"
      and vp: "virtual_ports_num c' = virtual_ports_num (forget_ports (ok_names rs) three_ports_ctl)"
    from replies [rule_format, of 0] clean have r0: "rs ! 0 = OK ''/dev/pts/0''" by simp
    from replies [rule_format, of 0] r0
    have "\<forall>j<length ?ns. 0 < j \<and> ?ns ! j = ?ns ! 0 \<longrightarrow> rs ! j = NOT_EXIST (?ns ! j)"
      by simp
    from this [rule_format, of 1] have r1: "rs ! 1 = NOT_EXIST ''/dev/pts/0''" by simp
    from len obtain a b where ab: "rs = [a, b]"
      by (cases rs; cases "tl rs") auto
    with r0 r1 have rsv: "rs = [OK ''/dev/pts/0'', NOT_EXIST ''/dev/pts/0'']" by simp
    have "set (serial_ports c') = {''/dev/pts/1'', ''/dev/pts/2''}"
      using names rsv by (auto simp: three_ports_ctl_def)
    moreover have "virtual_ports_num c' = 2" "external_ports c' = []"
      using vp ep rsv by (simp_all add: three_ports_ctl_def forget_port_def)
    ultimately show ?thesis using net rs rsv by simp
  qed
  with S run empty clean show ?thesis by simp
qed

text \<open>
  The claim as stated fails twice. A registered name whose file raises on
  \<^verbatim>\<open>close()\<close> is answered \<open>ERROR\<close>, not \<open>OK\<close>. And a call whose only name is answered
  \<open>NOT_EXIST\<close> still assigns \<^verbatim>\<open>list(set(self.serial_ports) - set([]))\<close>, whose order
  is the set's: here the name list comes back reversed.
\<close>

theorem remove_error_and_reorder_counterexample:
  "map_of (slave_names three_ports) ''/dev/pts/0'' = Some 3
   \<and> outbox (remove_ports stuck_close_env [''/dev/pts/0''] three_ports)
       = [ERROR (OSError ''Bad file descriptor'')]
   \<and> outbox (remove_ports demo_env [''/dev/nonexistent''] three_ports)
       = [NOT_EXIST ''/dev/nonexistent'']
   \<and> serial_ports three_ports_ctl = [''/dev/pts/0'', ''/dev/pts/1'', ''/dev/pts/2'']
   \<and> port_names (net_remove demo_env reversed_order [''/dev/nonexistent'']
                    (three_ports_ctl, three_ports))
       = Some [''/dev/pts/2'', ''/dev/pts/1'', ''/dev/pts/0'']"
  by code_simp

section \<open>Adding external ports\<close>

lemma add_one_registered:
  "cp_port cp \<in> fst ` set (slave_names w) \<Longrightarrow>
   add_one E cp w = send (EXIST (cp_port cp)) w"
  by (simp add: add_one_def)

lemma add_one_keys:
  "fst ` set (slave_names w) \<subseteq> fst ` set (slave_names (add_one E cp w))"
  "fst ` set (slave_names (add_one E cp w)) \<subseteq> insert (cp_port cp) (fst ` set (slave_names w))"
  by (auto simp: add_one_def try_add_def register_def send_def Let_def dom_update
           split: sum.splits option.splits if_splits)

lemma add_one_selector:
  "set (selector (add_one E cp w)) \<subseteq> set (selector w) \<union> {k. serial_open E cp = Inr k}"
  by (auto simp: add_one_def try_add_def register_def send_def Let_def
           split: sum.splits option.splits if_splits)

lemma add_one_reply_kinds:
  "outbox (add_one E cp w) = outbox w @ [EXIST (cp_port cp)] \<or>
   outbox (add_one E cp w) = outbox w @ [OK (cp_port cp)] \<or>
   (\<exists>e. outbox (add_one E cp w) = outbox w @ [ERROR e])"
  by (auto simp: add_one_def try_add_def register_def send_def Let_def
           split: sum.splits option.splits if_splits)

lemma add_one_count_other:
  assumes "cp_port cp \<noteq> p"
  shows "count_list (outbox (add_one E cp w)) (OK p) = count_list (outbox w) (OK p)"
    and "count_list (outbox (add_one E cp w)) (EXIST p) = count_list (outbox w) (EXIST p)"
  using add_one_reply_kinds [of E cp w] assms by auto

lemma add_one_clean:
  assumes "cp_port cp \<notin> fst ` set (slave_names w)" and "serial_open E cp = Inr k"
    and "set_blocking E k = None" and "0 \<le> k" and "k \<notin> set (selector w)"
  shows "outbox (add_one E cp w) = outbox w @ [OK (cp_port cp)]"
    and "cp_port cp \<in> fst ` set (slave_names (add_one E cp w))"
  using assms
  by (auto simp: add_one_def try_add_def register_def send_def Let_def dom_update)

lemma add_registered_counts:
  "p \<in> fst ` set (slave_names w) \<Longrightarrow>
   count_list (outbox (add_external_ports E cps w)) (OK p) = count_list (outbox w) (OK p) \<and>
   count_list (outbox (add_external_ports E cps w)) (EXIST p) =
     count_list (outbox w) (EXIST p) + length (filter (\<lambda>cp. cp_port cp = p) cps)"
proof (induction cps arbitrary: w)
  case Nil
  show ?case by simp
next
  case (Cons cp cps)
  have reg: "p \<in> fst ` set (slave_names (add_one E cp w))"
    using Cons.prems add_one_keys(1) [of w E cp] by blast
  note IH = Cons.IH [OF reg]
  show ?case
  proof (cases "cp_port cp = p")
    case True
    with Cons.prems have "add_one E cp w = send (EXIST p) w"
      using add_one_registered [of cp w E] by simp
    with IH True show ?thesis by simp
  next
    case False
    with IH add_one_count_other [OF False, of E w] show ?thesis by simp
  qed
qed

lemma add_fresh_counts:
  assumes "p \<notin> fst ` set (slave_names w)" and "\<exists>cp\<in>set cps. cp_port cp = p"
    and "\<forall>cp\<in>set cps. cp_port cp = p \<longrightarrow>
           (\<exists>k. serial_open E cp = Inr k \<and> set_blocking E k = None \<and> 0 \<le> k \<and>
                k \<notin> set (selector w) \<and> k \<notin> K)"
    and "\<forall>cp\<in>set cps. cp_port cp \<noteq> p \<longrightarrow> (\<forall>k. serial_open E cp = Inr k \<longrightarrow> k \<in> K)"
  shows "count_list (outbox (add_external_ports E cps w)) (OK p) = count_list (outbox w) (OK p) + 1 \<and>
         count_list (outbox (add_external_ports E cps w)) (EXIST p) + 1 =
           count_list (outbox w) (EXIST p) + length (filter (\<lambda>cp. cp_port cp = p) cps)"
  using assms
proof (induction cps arbitrary: w)
  case Nil
  then show ?case by simp
next
  case (Cons cp cps)
  show ?case
  proof (cases "cp_port cp = p")
    case True
    with Cons.prems(3) obtain k where k: "serial_open E cp = Inr k" "set_blocking E k = None"
        "0 \<le> k" "k \<notin> set (selector w)" by auto
    from Cons.prems(1) True have "cp_port cp \<notin> fst ` set (slave_names w)" by simp
    note clean = add_one_clean [OF this k]
    from clean(2) True have "p \<in> fst ` set (slave_names (add_one E cp w))" by simp
    from add_registered_counts [OF this, of E cps] clean(1) True
    show ?thesis by simp
  next
    case False
    have fresh: "p \<notin> fst ` set (slave_names (add_one E cp w))"
      using Cons.prems(1) add_one_keys(2) [of E cp w] False by auto
    have ex: "\<exists>cp\<in>set cps. cp_port cp = p" using Cons.prems(2) False by auto
    have sel: "set (selector (add_one E cp w)) \<subseteq> set (selector w) \<union> K"
      using add_one_selector [of E cp w] Cons.prems(4) False by auto
    have opens: "\<forall>cp'\<in>set cps. cp_port cp' = p \<longrightarrow>
           (\<exists>k. serial_open E cp' = Inr k \<and> set_blocking E k = None \<and> 0 \<le> k \<and>
                k \<notin> set (selector (add_one E cp w)) \<and> k \<notin> K)"
    proof (intro ballI impI)
      fix cp' assume "cp' \<in> set cps" "cp_port cp' = p"
      with Cons.prems(3) obtain k where "serial_open E cp' = Inr k" "set_blocking E k = None"
        "0 \<le> k" "k \<notin> set (selector w)" "k \<notin> K" by auto
      with sel show "\<exists>k. serial_open E cp' = Inr k \<and> set_blocking E k = None \<and> 0 \<le> k \<and>
                k \<notin> set (selector (add_one E cp w)) \<and> k \<notin> K" by auto
    qed
    have others: "\<forall>cp\<in>set cps. cp_port cp \<noteq> p \<longrightarrow> (\<forall>k. serial_open E cp = Inr k \<longrightarrow> k \<in> K)"
      using Cons.prems(4) by simp
    from Cons.IH [OF fresh ex opens others] add_one_count_other [OF False, of E w] False
    show ?thesis by simp
  qed
qed

lemma device_opens_counts:
  assumes "p \<notin> fst ` set (slave_names w)" and "\<exists>cp\<in>set cps. cp_port cp = p"
    and "device_opens E w cps p"
  shows "count_list (outbox (add_external_ports E cps w)) (OK p) = count_list (outbox w) (OK p) + 1 \<and>
         count_list (outbox (add_external_ports E cps w)) (EXIST p) + 1 =
           count_list (outbox w) (EXIST p) + length (filter (\<lambda>cp. cp_port cp = p) cps)"
proof (rule add_fresh_counts [OF assms(1,2),
        where K = "{k. \<exists>cp\<in>set cps. cp_port cp \<noteq> p \<and> serial_open E cp = Inr k}"])
  show "\<forall>cp\<in>set cps. cp_port cp = p \<longrightarrow>
           (\<exists>k. serial_open E cp = Inr k \<and> set_blocking E k = None \<and> 0 \<le> k \<and>
                k \<notin> set (selector w) \<and>
                k \<notin> {k. \<exists>cp\<in>set cps. cp_port cp \<noteq> p \<and> serial_open E cp = Inr k})"
  proof (intro ballI impI)
    fix cp assume cp: "cp \<in> set cps" "cp_port cp = p"
    with assms(3) have c: "case serial_open E cp of
           Inl e \<Rightarrow> False
         | Inr k \<Rightarrow> set_blocking E k = None \<and> 0 \<le> k \<and> k \<notin> set (selector w) \<and>
                    (\<forall>cp'\<in>set cps. cp_port cp' \<noteq> p \<longrightarrow> serial_open E cp' \<noteq> Inr k)"
      unfolding device_opens_def by blast
    then obtain k where k: "serial_open E cp = Inr k" by (cases "serial_open E cp") auto
    with c have "set_blocking E k = None" "0 \<le> k" "k \<notin> set (selector w)"
      "\<forall>cp'\<in>set cps. cp_port cp' \<noteq> p \<longrightarrow> serial_open E cp' \<noteq> Inr k" by simp_all
    with k show "\<exists>k. serial_open E cp = Inr k \<and> set_blocking E k = None \<and> 0 \<le> k \<and>
                k \<notin> set (selector w) \<and>
                k \<notin> {k. \<exists>cp\<in>set cps. cp_port cp \<noteq> p \<and> serial_open E cp = Inr k}"
      by (intro exI [of _ k]) auto
  qed
  show "\<forall>cp\<in>set cps. cp_port cp \<noteq> p \<longrightarrow>
          (\<forall>k. serial_open E cp = Inr k \<longrightarrow>
             k \<in> {k. \<exists>cp\<in>set cps. cp_port cp \<noteq> p \<and> serial_open E cp = Inr k})"
    by auto
qed

lemma device_opens_cong:
  "set cps = set cps' \<Longrightarrow> device_opens E w cps p = device_opens E w cps' p"
  by (simp only: device_opens_def)

lemma recv_added_result:
  "k \<le> length inbox \<Longrightarrow>
   \<exists>lg. recv_added S ds k acc c inbox =
     Some (acc @ List.map_filter (\<lambda>name. find (\<lambda>d. port d = name) (list_set_descs S ds))
                   (ok_names (take k inbox)),
           c\<lparr>logged := lg\<rparr>, drop k inbox)"
proof (induction S ds k acc c inbox rule: recv_added.induct)
  case (1 S ds ports_connected c inbox)
  show ?case by (intro exI [of _ "logged c"]) simp
next
  case (2 S ds k ports_connected c)
  then show ?case by simp
next
  case (3 S ds k ports_connected c r inbox)
  then have k: "k \<le> length inbox" by simp
  let ?f = "\<lambda>name. find (\<lambda>d. port d = name) (list_set_descs S ds)"
  show ?case
  proof (cases r)
    case (OK name)
    let ?acc = "case ?f name of Some d \<Rightarrow> ports_connected @ [d] | None \<Rightarrow> ports_connected"
    from 3 OK k obtain lg where
      "recv_added S ds k ?acc c inbox =
         Some (?acc @ List.map_filter ?f (ok_names (take k inbox)), c\<lparr>logged := lg\<rparr>, drop k inbox)"
      by blast
    with OK show ?thesis
      by (intro exI [of _ lg]) (simp split: option.splits)
  next
    case (ERROR e)
    from 3 ERROR k obtain lg where
      "recv_added S ds k ports_connected (logger (Error ''VSN: ERROR (%s)'') c) inbox =
         Some (ports_connected @ List.map_filter ?f (ok_names (take k inbox)),
               (logger (Error ''VSN: ERROR (%s)'') c)\<lparr>logged := lg\<rparr>, drop k inbox)"
      by blast
    with ERROR show ?thesis by (intro exI [of _ lg]) (simp add: logger_def)
  next
    case (EXIST name)
    from 3 EXIST k obtain lg where
      "recv_added S ds k ports_connected
         (logger (Error ''VSN: Port (%s) already added.'') c) inbox =
         Some (ports_connected @ List.map_filter ?f (ok_names (take k inbox)),
               (logger (Error ''VSN: Port (%s) already added.'') c)\<lparr>logged := lg\<rparr>,
               drop k inbox)"
      by blast
    with EXIST show ?thesis by (intro exI [of _ lg]) (simp add: logger_def)
  next
    case (NOT_EXIST name)
    from 3 NOT_EXIST k obtain lg where
      "recv_added S ds k ports_connected c inbox =
         Some (ports_connected @ List.map_filter ?f (ok_names (take k inbox)),
               c\<lparr>logged := lg\<rparr>, drop k inbox)"
      by blast
    with NOT_EXIST show ?thesis by (intro exI [of _ lg]) simp
  qed
qed

lemma add_result:
  assumes "master_io c" and "length (add_message S ds) \<le> length inbox"
  shows "\<exists>c'. add S ds c inbox = Some (c', drop (length (add_message S ds)) inbox)
     \<and> external_ports c' = remove_duplicates_loop []
          (external_ports c @
           List.map_filter (\<lambda>name. find (\<lambda>d. port d = name) (list_set_descs S ds))
             (ok_names (take (length (add_message S ds)) inbox)))
     \<and> serial_ports c' = list_set_names S
          (serial_ports c @
           map port (List.map_filter (\<lambda>name. find (\<lambda>d. port d = name) (list_set_descs S ds))
             (ok_names (take (length (add_message S ds)) inbox))))
     \<and> sent c' = sent c @ [Cmd_add (add_message S ds)]"
proof -
  from recv_added_result [OF assms(2), of S ds "[]" "c\<lparr>sent := sent c @ [Cmd_add (add_message S ds)]\<rparr>"]
  obtain lg where "recv_added S ds (length (add_message S ds)) []
       (c\<lparr>sent := sent c @ [Cmd_add (add_message S ds)]\<rparr>) inbox =
     Some (List.map_filter (\<lambda>name. find (\<lambda>d. port d = name) (list_set_descs S ds))
             (ok_names (take (length (add_message S ds)) inbox)),
           c\<lparr>sent := sent c @ [Cmd_add (add_message S ds)], logged := lg\<rparr>,
           drop (length (add_message S ds)) inbox)"
    by auto
  with assms(1) show ?thesis
    by (simp add: add_def Let_def ext_ports_remove_duplicates_def)
qed

lemma remove_duplicates_loop_ports:
  "port ` set (remove_duplicates_loop acc xs) = port ` set acc \<union> port ` set xs"
  by (induction xs arbitrary: acc) auto

lemma remove_duplicates_loop_distinct:
  "distinct (map port acc) \<Longrightarrow> distinct (map port (remove_duplicates_loop acc xs))"
  by (induction xs arbitrary: acc) auto

lemma one_of_each_name:
  "distinct (map port ys) \<Longrightarrow> p \<in> port ` set ys \<Longrightarrow> length (filter (\<lambda>d. port d = p) ys) = 1"
proof (induction ys)
  case Nil
  then show ?case by simp
next
  case (Cons y ys)
  show ?case
  proof (cases "port y = p")
    case True
    with Cons.prems(1) have "filter (\<lambda>d. port d = p) ys = []"
      by (auto simp: filter_empty_conv image_iff)
    with True show ?thesis by simp
  next
    case False
    with Cons show ?thesis by auto
  qed
qed

lemma ok_names_member: "p \<in> set (ok_names rs) \<longleftrightarrow> OK p \<in> set rs"
  by (induction rs rule: ok_names.induct) auto

lemma map_filter_find_member:
  assumes "p \<in> set names" and "d0 \<in> set ds" and "port d0 = p"
  shows "p \<in> port ` set (List.map_filter (\<lambda>name. find (\<lambda>d. port d = name) ds) names)"
proof -
  from assms(2,3) obtain d where d: "find (\<lambda>d. port d = p) ds = Some d"
    by (cases "find (\<lambda>d. port d = p) ds") (auto simp: find_None_iff)
  then have "port d = p" by (auto simp: find_Some_iff)
  moreover have "d \<in> set (List.map_filter (\<lambda>name. find (\<lambda>d. port d = name) ds) names)"
    using assms(1) d by (force simp: List.map_filter_def)
  ultimately show ?thesis by blast
qed

lemma set_list_set_descs: "permutes_lists S \<Longrightarrow> set (list_set_descs S ds) = set ds"
  unfolding permutes_lists_def list_set_descs_def
  by (metis set_mset_mset set_remdups)

lemma length_filter_list_set_descs:
  "permutes_lists S \<Longrightarrow>
   length (filter P (list_set_descs S ds)) = length (filter P (remdups ds))"
proof -
  assume "permutes_lists S"
  then have "mset (list_set_descs S ds) = mset (remdups ds)"
    by (simp add: permutes_lists_def list_set_descs_def)
  then have "mset (filter P (list_set_descs S ds)) = mset (filter P (remdups ds))"
    by (simp only: mset_filter)
  then show ?thesis by (rule mset_eq_length)
qed

lemma two_objects_of_a_name:
  assumes "d1 \<in> set ds" "d2 \<in> set ds" "d1 \<noteq> d2" "port d1 = p" "port d2 = p"
    and "\<forall>d\<in>set ds. port d = p \<longrightarrow> d = d1 \<or> d = d2"
  shows "length (filter (\<lambda>d. port d = p) (remdups ds)) = 2"
proof -
  have "set (filter (\<lambda>d. port d = p) (remdups ds)) = {d1, d2}"
    using assms by auto
  moreover have "distinct (filter (\<lambda>d. port d = p) (remdups ds))" by simp
  ultimately have "length (filter (\<lambda>d. port d = p) (remdups ds)) = card {d1, d2}"
    using distinct_card by metis
  with assms(3) show ?thesis by simp
qed

text \<open>
  Claim C5, amended. \<^verbatim>\<open>add\<close> passes its input through \<^verbatim>\<open>list(set(...))\<close>, which drops
  only repeated occurrences of the same descriptor object. For an input list on a running
  network in which exactly two distinct objects \<open>d1\<close>, \<open>d2\<close> carry the port name \<open>p\<close>,
  both are sent to the worker; when \<open>p\<close> is not registered yet and the device opens, the
  worker's responses hold exactly one \<open>OK p\<close> and exactly one \<open>EXIST p\<close>, and the
  controller ends with exactly one descriptor of that name and with \<open>p\<close> in a name list
  without duplicates.
\<close>

theorem add_same_name_twice:
  assumes S: "permutes_lists S" and run: "master_io c" and empty: "outbox w = []"
    and d1: "d1 \<in> set ds" and d2: "d2 \<in> set ds" and diff: "d1 \<noteq> d2"
    and p1: "port d1 = p" and p2: "port d2 = p"
    and only: "\<forall>d\<in>set ds. port d = p \<longrightarrow> d = d1 \<or> d = d2"
    and fresh: "p \<notin> fst ` set (slave_names w)"
    and opens: "device_opens E w (map to_dict ds) p"
  shows "\<exists>c' w' msg rs. net_add E S ds (c, w) = Some (c', w')
     \<and> sent c' = sent c @ [Cmd_add msg]
     \<and> mset msg = mset (map to_dict (remdups ds))
     \<and> length (filter (\<lambda>cp. cp_port cp = p) msg) = 2
     \<and> outbox (add_external_ports E msg w) = rs \<and> length rs = length msg
     \<and> count_list rs (OK p) = 1 \<and> count_list rs (EXIST p) = 1
     \<and> length (filter (\<lambda>d. port d = p) (external_ports c')) = 1
     \<and> p \<in> set (serial_ports c') \<and> distinct (serial_ports c')"
proof -
  define msg where "msg = add_message S ds"
  define w' where "w' = add_external_ports E msg w"
  define rs where "rs = outbox w'"
  let ?lsd = "list_set_descs S ds"
  have perm: "mset ?lsd = mset (remdups ds)"
    using S by (simp add: permutes_lists_def list_set_descs_def)
  have msg_mset: "mset msg = mset (map to_dict (remdups ds))"
    using perm by (metis msg_def add_message_def mset_map)
  have set_lsd: "set ?lsd = set ds" by (rule set_list_set_descs [OF S])
  have set_msg: "set msg = set (map to_dict ds)"
    using set_lsd by (simp add: msg_def add_message_def)
  have "filter (\<lambda>cp. cp_port cp = p) msg = map to_dict (filter (\<lambda>d. port d = p) ?lsd)"
    by (simp add: msg_def add_message_def filter_map comp_def to_dict_def)
  then have two: "length (filter (\<lambda>cp. cp_port cp = p) msg) = 2"
    using length_filter_list_set_descs [OF S, of "\<lambda>d. port d = p" ds]
      two_objects_of_a_name [OF d1 d2 diff p1 p2 only] by simp
  have len: "length rs = length msg"
    using add_external_ports_outbox [of E msg w] empty by (auto simp: rs_def w'_def)
  have ex: "\<exists>cp\<in>set msg. cp_port cp = p"
    using set_msg d1 p1 by (auto simp: to_dict_def)
  have "device_opens E w msg p"
    using opens device_opens_cong [OF set_msg] by simp
  from device_opens_counts [OF fresh ex this] empty two
  have counts: "count_list rs (OK p) = 1" "count_list rs (EXIST p) = 1"
    by (simp_all add: rs_def w'_def)
  have "length (add_message S ds) \<le> length rs" using len by (simp add: msg_def)
  from add_result [OF run this] len obtain c' where
    addr: "add S ds c rs = Some (c', [])"
    and ep: "external_ports c' = remove_duplicates_loop []
          (external_ports c @
           List.map_filter (\<lambda>name. find (\<lambda>d. port d = name) ?lsd) (ok_names rs))"
    and sp: "serial_ports c' = list_set_names S
          (serial_ports c @
           map port (List.map_filter (\<lambda>name. find (\<lambda>d. port d = name) ?lsd) (ok_names rs)))"
    and snt: "sent c' = sent c @ [Cmd_add msg]"
    by (auto simp: msg_def)
  have net: "net_add E S ds (c, w) = Some (c', w'\<lparr>outbox := []\<rparr>)"
    using run addr
    by (simp add: net_add_def process_cmd_def hand_over_def rs_def w'_def msg_def)
  have "OK p \<in> set rs"
    using counts(1) count_list_0_iff [of rs "OK p"] by auto
  then have "p \<in> set (ok_names rs)" by (simp add: ok_names_member)
  moreover have "d1 \<in> set ?lsd" using set_lsd d1 by simp
  ultimately have conn: "p \<in> port ` set
      (List.map_filter (\<lambda>name. find (\<lambda>d. port d = name) ?lsd) (ok_names rs))"
    using p1 by (intro map_filter_find_member)
  have "p \<in> port ` set (external_ports c')"
    using conn by (auto simp: ep remove_duplicates_loop_ports)
  moreover have "distinct (map port (external_ports c'))"
    by (simp add: ep remove_duplicates_loop_distinct)
  ultimately have one: "length (filter (\<lambda>d. port d = p) (external_ports c')) = 1"
    by (intro one_of_each_name)
  have names: "p \<in> set (serial_ports c')" "distinct (serial_ports c')"
    using conn S by (auto simp: sp)
  show ?thesis
  proof (intro exI [of _ c'] exI [of _ "w'\<lparr>outbox := []\<rparr>"] exI [of _ msg] exI [of _ rs] conjI)
    show "net_add E S ds (c, w) = Some (c', w'\<lparr>outbox := []\<rparr>)" by (rule net)
    show "sent c' = sent c @ [Cmd_add msg]" by (rule snt)
    show "mset msg = mset (map to_dict (remdups ds))" by (rule msg_mset)
    show "length (filter (\<lambda>cp. cp_port cp = p) msg) = 2" by (rule two)
    show "outbox (add_external_ports E msg w) = rs" by (simp add: rs_def w'_def)
    show "length rs = length msg" by (rule len)
    show "count_list rs (OK p) = 1" by (rule counts(1))
    show "count_list rs (EXIST p) = 1" by (rule counts(2))
    show "length (filter (\<lambda>d. port d = p) (external_ports c')) = 1" by (rule one)
    show "p \<in> set (serial_ports c')" by (rule names(1))
    show "distinct (serial_ports c')" by (rule names(2))
  qed
qed

theorem add_same_name_twice_witness:
  "permutes_lists insertion_order \<and> master_io three_ports_ctl \<and> outbox three_ports = []
   \<and> ttyS0 \<noteq> ttyS0_again \<and> port ttyS0 = ''/dev/ttyS0'' \<and> port ttyS0_again = ''/dev/ttyS0''
   \<and> ''/dev/ttyS0'' \<notin> fst ` set (slave_names three_ports)
   \<and> device_opens demo_env three_ports (map to_dict [ttyS0, ttyS0_again]) ''/dev/ttyS0''
   \<and> outbox (add_external_ports demo_env (add_message insertion_order [ttyS0, ttyS0_again])
               three_ports) = [OK ''/dev/ttyS0'', EXIST ''/dev/ttyS0'']
   \<and> (\<exists>c' w' msg rs.
         net_add demo_env insertion_order [ttyS0, ttyS0_again] (three_ports_ctl, three_ports)
           = Some (c', w')
         \<and> sent c' = sent three_ports_ctl @ [Cmd_add msg]
         \<and> mset msg = mset (map to_dict (remdups [ttyS0, ttyS0_again]))
         \<and> length (filter (\<lambda>cp. cp_port cp = ''/dev/ttyS0'') msg) = 2
         \<and> outbox (add_external_ports demo_env msg three_ports) = rs \<and> length rs = length msg
         \<and> count_list rs (OK ''/dev/ttyS0'') = 1 \<and> count_list rs (EXIST ''/dev/ttyS0'') = 1
         \<and> length (filter (\<lambda>d. port d = ''/dev/ttyS0'') (external_ports c')) = 1
         \<and> ''/dev/ttyS0'' \<in> set (serial_ports c') \<and> distinct (serial_ports c'))"
proof -
  note S = permutes_insertion_order
  have run: "master_io three_ports_ctl" by (simp add: three_ports_ctl_def)
  have empty: "outbox three_ports = []" by (simp add: three_ports_def)
  have d1: "ttyS0 \<in> set [ttyS0, ttyS0_again]" and d2: "ttyS0_again \<in> set [ttyS0, ttyS0_again]"
    by simp_all
  have diff: "ttyS0 \<noteq> ttyS0_again" by (simp add: ttyS0_def ttyS0_again_def)
  have p1: "port ttyS0 = ''/dev/ttyS0''" and p2: "port ttyS0_again = ''/dev/ttyS0''"
    by (simp_all add: ttyS0_def ttyS0_again_def)
  have only: "\<forall>d\<in>set [ttyS0, ttyS0_again]. port d = ''/dev/ttyS0'' \<longrightarrow> d = ttyS0 \<or> d = ttyS0_again"
    by simp
  have fresh: "''/dev/ttyS0'' \<notin> fst ` set (slave_names three_ports)"
    by (simp add: three_ports_def)
  have opens: "device_opens demo_env three_ports (map to_dict [ttyS0, ttyS0_again]) ''/dev/ttyS0''"
    by (simp add: device_opens_def demo_env_def three_ports_def to_dict_def ttyS0_def
        ttyS0_again_def)
  have replies: "outbox (add_external_ports demo_env
        (add_message insertion_order [ttyS0, ttyS0_again]) three_ports)
      = [OK ''/dev/ttyS0'', EXIST ''/dev/ttyS0'']"
    by code_simp
  note concl = add_same_name_twice [OF S run empty d1 d2 diff p1 p2 only fresh opens]
  show ?thesis
    by (intro conjI) (rule S run empty diff p1 p2 fresh opens replies concl)+
qed

text \<open>
  The claim as stated has one descriptor per name sent. Two descriptor objects for
  \<^verbatim>\<open>/dev/ttyS0\<close> are both in the message that \<^verbatim>\<open>add\<close> sends.
\<close>

theorem add_sends_both_descriptors_counterexample:
  "ttyS0 \<noteq> ttyS0_again \<and> port ttyS0 = port ttyS0_again
   \<and> map_option (sent \<circ> fst)
       (net_add demo_env insertion_order [ttyS0, ttyS0_again] (three_ports_ctl, three_ports))
     = Some [Cmd_add [to_dict ttyS0, to_dict ttyS0_again]]
   \<and> map cp_port (add_message insertion_order [ttyS0, ttyS0_again])
     = [''/dev/ttyS0'', ''/dev/ttyS0'']"
  by code_simp

end
